theory Spec2Isabelle
  imports Complex_Main "HOL-Library.Sublist" "HOL-Library.AList"
begin

section \<open>Python values used by the hooks\<close>

text \<open>
  The four hook scripts (\<^verbatim>\<open>task-interceptor.py\<close>, \<^verbatim>\<open>telemetry-enhancer.py\<close>,
  \<^verbatim>\<open>telemetry-collector.py\<close>, \<^verbatim>\<open>checkpoint-manager.py\<close>) are embedded function by
  function. Conventions of the embedding:
  \<^item> a Python \<^verbatim>\<open>str\<close> is a \<^typ>\<open>string\<close> whose characters are code points below 256
    (Latin-1); the string methods below are Python's, restricted to that range;
  \<^item> a value produced by \<^verbatim>\<open>json.loads\<close> is a \<^verbatim>\<open>json\<close> term; a \<^verbatim>\<open>dict\<close> is an
    association list in insertion order; a finite \<^verbatim>\<open>float\<close> is the rational it denotes,
    and the three non-finite floats, which \<^verbatim>\<open>json.loads\<close> returns for \<^verbatim>\<open>1e999\<close>,
    \<^verbatim>\<open>Infinity\<close>, \<^verbatim>\<open>-Infinity\<close> and \<^verbatim>\<open>NaN\<close>, are values of their own;
  \<^item> an exception is a value of type \<^verbatim>\<open>error\<close>; a function that can raise returns
    \<^verbatim>\<open>error + 'a\<close>;
  \<^item> diagnostic lines written to the error stream under \<^verbatim>\<open>DEBUG_EVOLUTION\<close> and
    \<^verbatim>\<open>DEBUG_TELEMETRY\<close> are not part of the state: nothing below reads them.
\<close>

datatype error = AttributeError | TypeError | ValueError | OSError | JSONDecodeError

datatype nonfinite = PosInf | NegInf | NaN

datatype json =
    JNull
  | JBool bool
  | JInt int
  | JFloat rat
  | JNonFinite nonfinite
  | JStr string
  | JArr "json list"
  | JObj "(string \<times> json) list"

primrec valid_json :: "json \<Rightarrow> bool" where
  \<comment> \<open>what \<^verbatim>\<open>json.dumps\<close> prints for the value is JSON text: \<^verbatim>\<open>Infinity\<close>,
      \<^verbatim>\<open>-Infinity\<close> and \<^verbatim>\<open>NaN\<close>, which it prints for the non-finite floats, are not\<close>
  "valid_json JNull = True"
| "valid_json (JBool b) = True"
| "valid_json (JInt n) = True"
| "valid_json (JFloat r) = True"
| "valid_json (JNonFinite x) = False"
| "valid_json (JStr s) = True"
| "valid_json (JArr xs) = list_all id (map valid_json xs)"
| "valid_json (JObj kvs) = list_all snd (map (map_prod id valid_json) kvs)"

definition bindE :: "error + 'a \<Rightarrow> ('a \<Rightarrow> error + 'b) \<Rightarrow> error + 'b" where
  "bindE m f = (case m of Inl e \<Rightarrow> Inl e | Inr x \<Rightarrow> f x)"

subsection \<open>Strings\<close>

definition py_lower_char :: "char \<Rightarrow> char" where
  \<comment> \<open>\<^verbatim>\<open>str.lower\<close> on one code point below 256: A-Z, and the Latin-1 capitals
      0xC0-0xDE without the multiplication sign 0xD7, move up by 32.\<close>
  "py_lower_char c =
     (let n = (of_char c :: nat) in
      if (65 \<le> n \<and> n \<le> 90) \<or> (192 \<le> n \<and> n \<le> 222 \<and> n \<noteq> 215)
      then char_of (n + 32) else c)"

definition py_lower :: "string \<Rightarrow> string" where
  "py_lower s = map py_lower_char s"

definition py_isspace :: "char \<Rightarrow> bool" where
  \<comment> \<open>\<^verbatim>\<open>str.isspace\<close>, which is also what \<^verbatim>\<open>\s\<close> matches in a \<^verbatim>\<open>str\<close> pattern:
      TAB, LF, VT, FF, CR, FS, GS, RS, US, space, NEL and the no-break space.\<close>
  "py_isspace c =
     (let n = (of_char c :: nat) in
      (9 \<le> n \<and> n \<le> 13) \<or> (28 \<le> n \<and> n \<le> 32) \<or> n = 133 \<or> n = 160)"

definition py_strip :: "string \<Rightarrow> string" where
  "py_strip s = rev (dropWhile py_isspace (rev (dropWhile py_isspace s)))"

definition py_isdigit_char :: "char \<Rightarrow> bool" where
  \<comment> \<open>\<^verbatim>\<open>str.isdigit\<close> on one code point below 256: 0-9 and the superscripts
      two, three and one (0xB2, 0xB3, 0xB9).\<close>
  "py_isdigit_char c =
     (let n = (of_char c :: nat) in
      (48 \<le> n \<and> n \<le> 57) \<or> n = 178 \<or> n = 179 \<or> n = 185)"

definition py_isdigit :: "string \<Rightarrow> bool" where
  "py_isdigit s = (s \<noteq> [] \<and> list_all py_isdigit_char s)"

definition ascii_digit :: "char \<Rightarrow> bool" where
  "ascii_digit c = (let n = (of_char c :: nat) in 48 \<le> n \<and> n \<le> 57)"

definition py_int :: "string \<Rightarrow> error + int" where
  \<comment> \<open>\<^verbatim>\<open>int(s)\<close> on a string for which \<^verbatim>\<open>isdigit\<close> holds: the decimal value when
      every character is 0-9, and ValueError on a superscript digit.\<close>
  "py_int s =
     (if s \<noteq> [] \<and> list_all ascii_digit s
      then Inr (foldl (\<lambda>acc c. 10 * acc + (int (of_char c) - 48)) 0 s)
      else Inl ValueError)"

subsection \<open>Dictionaries and truth values\<close>

definition py_get :: "json \<Rightarrow> string \<Rightarrow> json \<Rightarrow> error + json" where
  \<comment> \<open>\<^verbatim>\<open>d.get(k, default)\<close>: only a \<^verbatim>\<open>dict\<close> has the method.\<close>
  "py_get d k dflt =
     (case d of
        JObj kvs \<Rightarrow> Inr (case map_of kvs k of Some v \<Rightarrow> v | None \<Rightarrow> dflt)
      | _ \<Rightarrow> Inl AttributeError)"

definition truthy :: "json \<Rightarrow> bool" where
  \<comment> \<open>Python's truth value of a JSON value.\<close>
  "truthy v =
     (case v of
        JNull \<Rightarrow> False
      | JBool b \<Rightarrow> b
      | JInt n \<Rightarrow> n \<noteq> 0
      | JFloat r \<Rightarrow> r \<noteq> 0
      | JNonFinite x \<Rightarrow> True
      | JStr s \<Rightarrow> s \<noteq> []
      | JArr xs \<Rightarrow> xs \<noteq> []
      | JObj kvs \<Rightarrow> kvs \<noteq> [])"

definition py_str :: "(json \<Rightarrow> string) \<Rightarrow> json \<Rightarrow> string" where
  \<comment> \<open>\<^verbatim>\<open>str(v)\<close>: a string is itself; the rendering of any other value (Python's
      \<^verbatim>\<open>repr\<close>) is the parameter \<open>repr\<close>.\<close>
  "py_str repr v = (case v of JStr s \<Rightarrow> s | _ \<Rightarrow> repr v)"

section \<open>task-interceptor.py: the classifier\<close>

definition evolution_keywords :: "string list" where
  "evolution_keywords =
     [''recreate this'',
      ''book page layout'',
      ''indesign'',
      ''mcp tools'',
      ''telemetry_end_session'',
      ''set_environment_variable'',
      ''reference image'']"

definition is_evolution_prompt :: "string \<Rightarrow> bool" where
  "is_evolution_prompt prompt_text =
     (let prompt_lower = py_lower prompt_text;
          matches = sum_list [1 :: int. keyword \<leftarrow> evolution_keywords, sublist keyword prompt_lower]
      in matches \<ge> 3)"

definition occurs_ci :: "string \<Rightarrow> string \<Rightarrow> bool" where
  \<comment> \<open>The claim's words: phrase \<open>k\<close> occurs in \<open>p\<close> up to letter case.\<close>
  "occurs_ci k p = (\<exists>u v w. p = u @ v @ w \<and> py_lower v = py_lower k)"

section \<open>The world an invocation runs in\<close>

text \<open>
  Each hook is one process per event. What it can read is gathered in \<^verbatim>\<open>ctx\<close>: the
  parsed standard input (\<open>None\<close> when \<^verbatim>\<open>json.loads\<close> raises, as on empty or malformed
  text), one reading of the clock (milliseconds since the epoch, with the two renderings
  the scripts ask for), the value of \<^verbatim>\<open>str(uuid.uuid4())\<close>, the home directory, and the
  operations of the file system that fail in this run. What it can change is the \<^verbatim>\<open>world\<close>:
  the environment variables, the files (in directory order) with their modification
  times, the directories, and the objects printed on standard output.

  A file is a sequence of lines; a line written by \<^verbatim>\<open>json.dumps\<close> or \<^verbatim>\<open>json.dump\<close> is
  the JSON value it denotes. An operation of the file system fails when \<open>faulty\<close> says so, or
  when the path it needs is not there; it then raises \<^verbatim>\<open>OSError\<close> and changes nothing.
\<close>

datatype fline = JsonLine json | TextLine string

record file_node =
  content :: "fline list"
  mtime :: int

datatype io_op =
    Makedirs string
  | OpenAppend string
  | OpenRead string
  | OpenWrite string
  | Listdir string
  | Copy string string
  | Remove string
  | Getmtime string

record ctx =
  stdin :: "json option"
  now_ms :: int
  now_iso :: string
  now_stamp :: string
  uuid4 :: string
  home :: string
  faulty :: "io_op \<Rightarrow> bool"
  py_repr :: "json \<Rightarrow> string"

record world =
  environ :: "string \<rightharpoonup> string"
  files :: "(string \<times> file_node) list"
  dirs :: "string list"
  stdout :: "json list"

datatype 'a result = Ok 'a world | Fail error world

definition print_json :: "json \<Rightarrow> world \<Rightarrow> world" where
  \<comment> \<open>\<^verbatim>\<open>print(json.dumps(v))\<close>\<close>
  "print_json v w = w\<lparr>stdout := stdout w @ [v]\<rparr>"

definition env_truthy :: "world \<Rightarrow> string \<Rightarrow> bool" where
  \<comment> \<open>the truth value of \<^verbatim>\<open>os.environ.get(name)\<close>\<close>
  "env_truthy w name = (case environ w name of None \<Rightarrow> False | Some v \<Rightarrow> v \<noteq> [])"

subsection \<open>Paths\<close>

definition path_join :: "string \<Rightarrow> string \<Rightarrow> string" where
  \<comment> \<open>\<^verbatim>\<open>os.path.join(a, b)\<close>\<close>
  "path_join a b =
     (if b \<noteq> [] \<and> hd b = CHR ''/'' then b
      else if a = [] \<or> last a = CHR ''/'' then a @ b
      else a @ ''/'' @ b)"

definition basename :: "string \<Rightarrow> string" where
  "basename p = rev (takeWhile (\<lambda>c. c \<noteq> CHR ''/'') (rev p))"

definition child_name :: "string \<Rightarrow> string \<Rightarrow> string option" where
  \<comment> \<open>the name under which path \<open>p\<close> is an entry of directory \<open>d\<close>, if it is one\<close>
  "child_name d p =
     (let n = drop (length d + 1) p in
      if take (length d + 1) p = d @ ''/'' \<and> n \<noteq> [] \<and> CHR ''/'' \<notin> set n
      then Some n else None)"

definition is_file :: "world \<Rightarrow> string \<Rightarrow> bool" where
  "is_file w p = (map_of (files w) p \<noteq> None)"

definition is_dir :: "world \<Rightarrow> string \<Rightarrow> bool" where
  "is_dir w p = (p \<in> set (dirs w))"

subsection \<open>File-system operations\<close>

definition os_path_exists :: "world \<Rightarrow> string \<Rightarrow> bool" where
  "os_path_exists w p = (is_file w p \<or> is_dir w p)"

definition os_makedirs :: "ctx \<Rightarrow> string \<Rightarrow> world \<Rightarrow> error + world" where
  \<comment> \<open>\<^verbatim>\<open>os.makedirs(p, exist_ok=True)\<close>\<close>
  "os_makedirs c p w =
     (if faulty c (Makedirs p) \<or> is_file w p then Inl OSError
      else Inr (w\<lparr>dirs := List.insert p (dirs w)\<rparr>))"

definition append_line :: "ctx \<Rightarrow> string \<Rightarrow> fline \<Rightarrow> world \<Rightarrow> error + world" where
  \<comment> \<open>\<^verbatim>\<open>with open(p, 'a') as f: f.write(line + '\n')\<close>\<close>
  "append_line c p l w =
     (if faulty c (OpenAppend p) \<or> is_dir w p then Inl OSError
      else
        let old = (case map_of (files w) p of None \<Rightarrow> [] | Some f \<Rightarrow> content f)
        in Inr (w\<lparr>files := AList.update p \<lparr>content = old @ [l], mtime = now_ms c\<rparr> (files w)\<rparr>))"

definition write_file :: "ctx \<Rightarrow> string \<Rightarrow> fline list \<Rightarrow> world \<Rightarrow> error + world" where
  \<comment> \<open>\<^verbatim>\<open>with open(p, 'w') as f: ...\<close>\<close>
  "write_file c p ls w =
     (if faulty c (OpenWrite p) \<or> is_dir w p then Inl OSError
      else Inr (w\<lparr>files := AList.update p \<lparr>content = ls, mtime = now_ms c\<rparr> (files w)\<rparr>))"

definition json_load :: "ctx \<Rightarrow> string \<Rightarrow> world \<Rightarrow> error + json" where
  \<comment> \<open>\<^verbatim>\<open>with open(p, 'r') as f: json.load(f)\<close>: the file has to hold one JSON document\<close>
  "json_load c p w =
     (if faulty c (OpenRead p) then Inl OSError
      else case map_of (files w) p of
             None \<Rightarrow> Inl OSError
           | Some f \<Rightarrow> (case content f of [JsonLine v] \<Rightarrow> Inr v | _ \<Rightarrow> Inl JSONDecodeError))"

definition os_listdir :: "ctx \<Rightarrow> string \<Rightarrow> world \<Rightarrow> error + string list" where
  "os_listdir c d w =
     (if faulty c (Listdir d) \<or> \<not> is_dir w d then Inl OSError
      else Inr (List.map_filter (child_name d) (map fst (files w) @ dirs w)))"

definition shutil_copy2 :: "ctx \<Rightarrow> string \<Rightarrow> string \<Rightarrow> world \<Rightarrow> error + world" where
  \<comment> \<open>content and modification time are copied; a destination that is a directory
      receives the file under the source's base name\<close>
  "shutil_copy2 c src dst w =
     (let target = (if is_dir w dst then path_join dst (basename src) else dst) in
      if faulty c (Copy src dst) \<or> is_dir w target then Inl OSError
      else case map_of (files w) src of
             None \<Rightarrow> Inl OSError
           | Some f \<Rightarrow> Inr (w\<lparr>files := AList.update target f (files w)\<rparr>))"

definition os_remove :: "ctx \<Rightarrow> string \<Rightarrow> world \<Rightarrow> error + world" where
  "os_remove c p w =
     (if faulty c (Remove p) \<or> \<not> is_file w p then Inl OSError
      else Inr (w\<lparr>files := AList.delete p (files w)\<rparr>))"

definition os_getmtime :: "ctx \<Rightarrow> string \<Rightarrow> world \<Rightarrow> error + int" where
  \<comment> \<open>The modification time of a directory is not recorded. The one caller removes the
      path with \<^verbatim>\<open>os.remove\<close>, which raises on a directory, and ignores every error of
      its loop body, so that a directory is left alone whatever its age.\<close>
  "os_getmtime c p w =
     (if faulty c (Getmtime p) then Inl OSError
      else case map_of (files w) p of None \<Rightarrow> Inl OSError | Some f \<Rightarrow> Inr (mtime f))"

definition scratch_name :: "string \<Rightarrow> bool" where
  \<comment> \<open>\<^verbatim>\<open>fnmatch\<close> of a file name against \<^verbatim>\<open>evolution-*.json\<close>\<close>
  "scratch_name n =
     (prefix ''evolution-'' n \<and> suffix ''.json'' n \<and> length n \<ge> length ''evolution-.json'')"

definition is_scratch_path :: "string \<Rightarrow> bool" where
  \<comment> \<open>a path that the pattern \<^verbatim>\<open>/tmp/evolution-*.json\<close> matches\<close>
  "is_scratch_path p = (case child_name ''/tmp'' p of None \<Rightarrow> False | Some n \<Rightarrow> scratch_name n)"

definition glob_scratch :: "world \<Rightarrow> string list" where
  \<comment> \<open>\<^verbatim>\<open>glob.glob("/tmp/evolution-*.json")\<close>\<close>
  "glob_scratch w = filter is_scratch_path (map fst (files w) @ dirs w)"

section \<open>Session context (the same function in three of the scripts)\<close>

record session_info =
  si_session_id :: "string option"
  si_agent_id :: string
  si_generation :: int

definition get_session_info :: "world \<Rightarrow> error + session_info" where
  "get_session_info w =
     (let session_id =
            (case environ w ''EVOLUTION_SESSION_ID'' of
               Some s \<Rightarrow> if s \<noteq> [] then Some s else environ w ''TELEMETRY_SESSION_ID''
             | None \<Rightarrow> environ w ''TELEMETRY_SESSION_ID'');
          agent_id = (case environ w ''TELEMETRY_AGENT_ID'' of Some a \<Rightarrow> a | None \<Rightarrow> ''unknown'');
          generation = (case environ w ''TELEMETRY_GENERATION'' of Some g \<Rightarrow> g | None \<Rightarrow> ''0'')
      in bindE (if py_isdigit generation then py_int generation else Inr 0) (\<lambda>g.
           Inr \<lparr>si_session_id = session_id, si_agent_id = agent_id, si_generation = g\<rparr>))"

definition json_of_sid :: "string option \<Rightarrow> json" where
  "json_of_sid s = (case s of None \<Rightarrow> JNull | Some x \<Rightarrow> JStr x)"

definition sid_truthy :: "string option \<Rightarrow> bool" where
  "sid_truthy s = (case s of None \<Rightarrow> False | Some x \<Rightarrow> x \<noteq> [])"

definition telemetry_dir :: "ctx \<Rightarrow> string" where
  \<comment> \<open>\<^verbatim>\<open>os.path.expanduser('~/.claude/telemetry')\<close>\<close>
  "telemetry_dir c = home c @ ''/.claude/telemetry''"

definition raise_or :: "world \<Rightarrow> error + 'a \<Rightarrow> ('a \<Rightarrow> 'b result) \<Rightarrow> 'b result" where
  \<comment> \<open>a step that either raises in world \<open>w\<close> or hands its value on\<close>
  "raise_or w m f = (case m of Inl e \<Rightarrow> Fail e w | Inr x \<Rightarrow> f x)"

definition as_str :: "json \<Rightarrow> error + string" where
  \<comment> \<open>the receiver of a \<^verbatim>\<open>str\<close> method (\<^verbatim>\<open>lower\<close>, \<^verbatim>\<open>startswith\<close>): any other
      JSON value has no such attribute\<close>
  "as_str v = (case v of JStr s \<Rightarrow> Inr s | _ \<Rightarrow> Inl AttributeError)"

type_synonym pydict = "(string \<times> json) list"

section \<open>task-interceptor.py\<close>

definition digit_char :: "int \<Rightarrow> char" where
  "digit_char d = char_of (48 + d)"

function dec_digits :: "int \<Rightarrow> string" where
  "dec_digits n = (if n < 10 then [digit_char n] else dec_digits (n div 10) @ [digit_char (n mod 10)])"
  by pat_completeness auto
termination
  by (relation "measure nat") auto

definition py_str_int :: "int \<Rightarrow> string" where
  \<comment> \<open>\<^verbatim>\<open>str(n)\<close> of an integer\<close>
  "py_str_int n = (if n < 0 then ''-'' @ dec_digits (- n) else dec_digits n)"

definition unix_seconds :: "ctx \<Rightarrow> int" where
  \<comment> \<open>\<^verbatim>\<open>int(datetime.now().timestamp())\<close>: the clock in seconds, truncated towards zero\<close>
  "unix_seconds c = (if now_ms c \<ge> 0 then now_ms c div 1000 else - ((- now_ms c) div 1000))"

definition setup_evolution_session :: "ctx \<Rightarrow> world \<Rightarrow> string \<times> world" where
  "setup_evolution_session c w =
     (let session_id = py_str_int (unix_seconds c) @ ''-evolution-'' @ take 8 (uuid4 c);
          e1 = (environ w)(''EVOLUTION_SESSION_ID'' \<mapsto> session_id);
          e2 = e1(''TELEMETRY_ENABLED'' \<mapsto> ''true'');
          e3 = e2(''TELEMETRY_SESSION_ID'' \<mapsto> session_id)
      in (session_id, w\<lparr>environ := e3\<rparr>))"

subsection \<open>The two label patterns\<close>

text \<open>
  \<^verbatim>\<open>re.search(pattern, text, re.IGNORECASE)\<close> for the patterns
  \<^verbatim>\<open>reference image:\s*([^\n]+)\<close> and \<^verbatim>\<open>reference:\s*([^\n]+)\<close>: a backtracking matcher
  over literals (compared up to letter case), a greedy star of a character class and a
  greedy capturing plus of a character class. \<open>rx_match\<close> returns the text of the group
  of the first match the backtracking finds at the start of the text; \<open>re_search\<close>
  tries the start positions from left to right.
\<close>

datatype cls = Space | NotNewline

datatype rx = Lit char | Star cls | GroupPlus cls

definition in_cls :: "cls \<Rightarrow> char \<Rightarrow> bool" where
  "in_cls k x = (case k of Space \<Rightarrow> py_isspace x | NotNewline \<Rightarrow> x \<noteq> CHR 0x0A)"

fun rx_match :: "rx list \<Rightarrow> string \<Rightarrow> string \<Rightarrow> string option"
  and rx_more :: "cls \<Rightarrow> rx list \<Rightarrow> string \<Rightarrow> string \<Rightarrow> string option" where
  "rx_match [] s cap = Some cap"
| "rx_match (Lit c # r) [] cap = None"
| "rx_match (Lit c # r) (x # xs) cap =
     (if py_lower_char x = py_lower_char c then rx_match r xs cap else None)"
| "rx_match (Star k # r) [] cap = rx_match r [] cap"
| "rx_match (Star k # r) (x # xs) cap =
     (if in_cls k x
      then (case rx_match (Star k # r) xs cap of
              Some g \<Rightarrow> Some g
            | None \<Rightarrow> rx_match r (x # xs) cap)
      else rx_match r (x # xs) cap)"
| "rx_match (GroupPlus k # r) [] cap = None"
| "rx_match (GroupPlus k # r) (x # xs) cap =
     (if in_cls k x then rx_more k r [x] xs else None)"
| "rx_more k r taken [] = rx_match r [] taken"
| "rx_more k r taken (x # xs) =
     (if in_cls k x
      then (case rx_more k r (taken @ [x]) xs of
              Some g \<Rightarrow> Some g
            | None \<Rightarrow> rx_match r (x # xs) taken)
      else rx_match r (x # xs) taken)"

fun re_search :: "rx list \<Rightarrow> string \<Rightarrow> string option" where
  "re_search p [] = rx_match p [] []"
| "re_search p (x # xs) =
     (case rx_match p (x # xs) [] of Some g \<Rightarrow> Some g | None \<Rightarrow> re_search p xs)"

definition ref_patterns :: "rx list list" where
  "ref_patterns =
     [map Lit ''reference image:'' @ [Star Space, GroupPlus NotNewline],
      map Lit ''reference:'' @ [Star Space, GroupPlus NotNewline]]"

fun first_match :: "rx list list \<Rightarrow> string \<Rightarrow> string option" where
  "first_match [] t = None"
| "first_match (pattern # rest) t =
     (case re_search pattern t of
        Some g \<Rightarrow> Some (py_strip g)
      | None \<Rightarrow> first_match rest t)"

definition extract_reference_info :: "string \<Rightarrow> string option" where
  "extract_reference_info prompt_text = first_match ref_patterns prompt_text"

subsection \<open>The entry point\<close>

text \<open>
  In each \<^verbatim>\<open>main\<close> the handler of the outer \<^verbatim>\<open>try\<close> reads standard input a second time.
  The first read has consumed it, the second returns the empty text, \<^verbatim>\<open>json.loads\<close>
  raises on it, and the inner handler prints the script's fixed object. The world in
  which the handler runs is the one the exception left behind.
\<close>

definition task_interceptor_try :: "ctx \<Rightarrow> world \<Rightarrow> unit result" where
  "task_interceptor_try c w =
     (case stdin c of
        None \<Rightarrow> Fail JSONDecodeError w
      | Some input_data \<Rightarrow>
          raise_or w (bindE (py_get input_data ''tool'' (JObj [])) (\<lambda>t. py_get t ''name'' (JStr []))) (\<lambda>tool_name.
          raise_or w (bindE (py_get input_data ''tool'' (JObj [])) (\<lambda>t. py_get t ''arguments'' (JObj []))) (\<lambda>parameters.
            if tool_name \<noteq> JStr ''Task'' then Ok () (print_json input_data w)
            else
              raise_or w (py_get parameters ''prompt'' (JStr [])) (\<lambda>prompt.
              raise_or w (as_str prompt) (\<lambda>prompt_text.
                if is_evolution_prompt prompt_text then
                  (case setup_evolution_session c w of (session_id, w1) \<Rightarrow>
                     let reference = extract_reference_info prompt_text;
                         evolution_metadata =
                           JObj [(''session_id'', JStr session_id),
                                 (''reference'', (case reference of None \<Rightarrow> JNull | Some r \<Rightarrow> JStr r)),
                                 (''start_time'', JStr (now_iso c)),
                                 (''intercepted'', JBool True)];
                         metadata_file = ''/tmp/evolution-'' @ session_id @ ''.json''
                     in raise_or w1 (write_file c metadata_file [JsonLine evolution_metadata] w1) (\<lambda>w2.
                          Ok () (print_json input_data w2)))
                else Ok () (print_json input_data w))))))"

definition task_interceptor_main :: "ctx \<Rightarrow> world \<Rightarrow> world" where
  "task_interceptor_main c w =
     (case task_interceptor_try c w of
        Ok _ w' \<Rightarrow> w'
      | Fail e w' \<Rightarrow>
          print_json (JObj [(''tool'', JObj [(''name'', JStr ''Task''), (''arguments'', JObj [])])]) w')"

section \<open>telemetry-enhancer.py\<close>

definition enhance_telemetry_capture :: "ctx \<Rightarrow> world \<Rightarrow> json \<Rightarrow> error + pydict" where
  "enhance_telemetry_capture c w tool_call =
     bindE (get_session_info w) (\<lambda>session_info.
     bindE (py_get tool_call ''name'' (JStr ''unknown'')) (\<lambda>name.
     bindE (py_get tool_call ''arguments'' (JObj [])) (\<lambda>arguments.
       Inr [(''timestamp'', JInt (now_ms c)),
            (''tool'', name),
            (''parameters'', arguments),
            (''session_id'', json_of_sid (si_session_id session_info)),
            (''agent_id'', JStr (si_agent_id session_info)),
            (''generation'', JInt (si_generation session_info)),
            (''capture_source'', JStr ''hook_preuse'')])))"

definition write_telemetry_record :: "ctx \<Rightarrow> pydict \<Rightarrow> world \<Rightarrow> unit result" where
  \<comment> \<open>the same function in telemetry-enhancer.py and telemetry-collector.py:
      \<^verbatim>\<open>os.makedirs\<close> stands before the \<^verbatim>\<open>try\<close>, the append inside it\<close>
  "write_telemetry_record c record w =
     (let session_id = (case map_of record ''session_id'' of Some v \<Rightarrow> v | None \<Rightarrow> JNull) in
      if \<not> truthy session_id then Ok () w
      else
        raise_or w (os_makedirs c (telemetry_dir c) w) (\<lambda>w1.
          let telemetry_file =
                path_join (telemetry_dir c) (py_str (py_repr c) session_id @ ''.jsonl'')
          in case append_line c telemetry_file (JsonLine (JObj record)) w1 of
               Inr w2 \<Rightarrow> Ok () w2
             | Inl e \<Rightarrow> Ok () w1))"

definition py_len :: "json \<Rightarrow> error + nat" where
  "py_len v =
     (case v of
        JStr s \<Rightarrow> Inr (length s)
      | JArr xs \<Rightarrow> Inr (length xs)
      | JObj kvs \<Rightarrow> Inr (length kvs)
      | _ \<Rightarrow> Inl TypeError)"

definition py_contains :: "string \<Rightarrow> json \<Rightarrow> error + bool" where
  \<comment> \<open>\<^verbatim>\<open>key in v\<close>: a key of a dict, an element of a list, a substring of a string\<close>
  "py_contains key v =
     (case v of
        JObj kvs \<Rightarrow> Inr (key \<in> fst ` set kvs)
      | JArr xs \<Rightarrow> Inr (JStr key \<in> set xs)
      | JStr s \<Rightarrow> Inr (sublist key s)
      | _ \<Rightarrow> Inl TypeError)"

fun py_any_in :: "string list \<Rightarrow> json \<Rightarrow> error + bool" where
  "py_any_in [] v = Inr False"
| "py_any_in (key # keys) v =
     bindE (py_contains key v) (\<lambda>b. if b then Inr True else py_any_in keys v)"

definition analyze_tool_usage :: "(json \<Rightarrow> string) \<Rightarrow> string \<Rightarrow> json \<Rightarrow> error + pydict" where
  "analyze_tool_usage repr tool_name parameters =
     bindE (py_len parameters) (\<lambda>n.
     bindE (py_any_in [''x'', ''y'', ''width'', ''height''] parameters) (\<lambda>has_coordinates.
     bindE (py_any_in [''text'', ''content'', ''description''] parameters) (\<lambda>has_text_content.
     bindE (py_any_in [''style'', ''font'', ''alignment''] parameters) (\<lambda>has_style_info.
       Inr [(''parameter_count'', JInt (int n)),
            (''has_coordinates'', JBool has_coordinates),
            (''has_text_content'', JBool has_text_content),
            (''has_style_info'', JBool has_style_info),
            (''complexity_score'',
               JFloat (of_nat (min (length (py_str repr parameters)) 1000) / 100))]))))"

definition telemetry_enhancer_try :: "ctx \<Rightarrow> world \<Rightarrow> unit result" where
  "telemetry_enhancer_try c w =
     (case stdin c of
        None \<Rightarrow> Fail JSONDecodeError w
      | Some input_data \<Rightarrow>
          raise_or w (py_get input_data ''tool'' (JObj [])) (\<lambda>tool_info.
          raise_or w (py_get tool_info ''name'' (JStr [])) (\<lambda>name.
          raise_or w (as_str name) (\<lambda>tool_name.
            if \<not> prefix ''mcp__indesign__'' tool_name then Ok () (print_json input_data w)
            else if \<not> env_truthy w ''EVOLUTION_SESSION_ID'' then Ok () (print_json input_data w)
            else
              raise_or w (enhance_telemetry_capture c w tool_info) (\<lambda>enhanced_call.
              raise_or w (bindE (py_get tool_info ''arguments'' (JObj []))
                                (analyze_tool_usage (py_repr c) tool_name)) (\<lambda>usage.
                case write_telemetry_record c
                       (AList.update ''usage_analysis'' (JObj usage) enhanced_call) w of
                  Fail e w1 \<Rightarrow> Fail e w1
                | Ok _ w1 \<Rightarrow> Ok () (print_json input_data w1)))))))"

definition telemetry_enhancer_main :: "ctx \<Rightarrow> world \<Rightarrow> world" where
  "telemetry_enhancer_main c w =
     (case telemetry_enhancer_try c w of
        Ok _ w' \<Rightarrow> w'
      | Fail e w' \<Rightarrow>
          print_json (JObj [(''tool'', JObj [(''name'', JStr ''unknown''), (''arguments'', JObj [])])]) w')"

section \<open>telemetry-collector.py\<close>

definition analyze_tool_result :: "(json \<Rightarrow> string) \<Rightarrow> json \<Rightarrow> json \<Rightarrow> error + json" where
  "analyze_tool_result repr tool_name result =
     bindE (py_get result ''error'' JNull) (\<lambda>err.
     bindE (py_get result ''content'' JNull) (\<lambda>content.
       let analysis =
             [(''success'', JBool (\<not> truthy err)),
              (''has_content'', JBool (truthy content)),
              (''result_size'', JInt (if truthy result then int (length (py_str repr result)) else 0)),
              (''error_type'', JNull)]
       in if truthy err then
            let error_msg = py_lower (py_str repr err) in
            if sublist ''timeout'' error_msg then
              Inr (JObj (AList.update ''error_type'' (JStr ''timeout'') analysis))
            else if sublist ''permission'' error_msg \<or> sublist ''access'' error_msg then
              Inr (JObj (AList.update ''error_type'' (JStr ''permission'') analysis))
            else if sublist ''not found'' error_msg \<or> sublist ''missing'' error_msg then
              Inr (JObj (AList.update ''error_type'' (JStr ''not_found'') analysis))
            else if sublist ''invalid'' error_msg \<or> sublist ''parameter'' error_msg then
              Inr (JObj (AList.update ''error_type'' (JStr ''parameter'') analysis))
            else
              Inr (JObj (AList.update ''error_type'' (JStr ''unknown'') analysis))
          else Inr (JObj analysis)))"

definition complete_telemetry_record :: "ctx \<Rightarrow> world \<Rightarrow> json \<Rightarrow> json \<Rightarrow> json \<Rightarrow> error + pydict" where
  "complete_telemetry_record c w tool_call result execution_time =
     bindE (get_session_info w) (\<lambda>session_info.
     bindE (py_get tool_call ''name'' (JStr ''unknown'')) (\<lambda>name.
     bindE (py_get tool_call ''arguments'' (JObj [])) (\<lambda>arguments.
     bindE (py_get result ''error'' JNull) (\<lambda>err.
       let completed_record =
             [(''timestamp'', JInt (now_ms c)),
              (''tool'', name),
              (''parameters'', arguments),
              (''result'', JStr (if \<not> truthy err then ''success'' else ''error'')),
              (''execution_time'', execution_time),
              (''session_id'', json_of_sid (si_session_id session_info)),
              (''agent_id'', JStr (si_agent_id session_info)),
              (''generation'', JInt (si_generation session_info)),
              (''capture_source'', JStr ''hook_postuse'')];
           with_message =
             (if truthy err
              then AList.update ''error_message'' (JStr (py_str (py_repr c) err)) completed_record
              else completed_record)
       in bindE (py_get tool_call ''name'' (JStr [])) (\<lambda>tool_name.
          bindE (analyze_tool_result (py_repr c) tool_name result) (\<lambda>analysis.
            Inr (AList.update ''result_analysis'' analysis with_message)))))))"

definition py_add_one :: "json \<Rightarrow> error + json" where
  \<comment> \<open>\<^verbatim>\<open>v + 1\<close>: defined on numbers (a \<^verbatim>\<open>bool\<close> counts as 0 or 1)\<close>
  "py_add_one v =
     (case v of
        JInt n \<Rightarrow> Inr (JInt (n + 1))
      | JBool b \<Rightarrow> Inr (JInt ((if b then 1 else 0) + 1))
      | JFloat r \<Rightarrow> Inr (JFloat (r + 1))
      | JNonFinite x \<Rightarrow> Inr (JNonFinite x)
      | _ \<Rightarrow> Inl TypeError)"

definition stats_path :: "ctx \<Rightarrow> string \<Rightarrow> string" where
  \<comment> \<open>\<^verbatim>\<open>os.path.expanduser(f'~/.claude/telemetry/{session_id}-stats.json')\<close>\<close>
  "stats_path c session_id = home c @ ''/.claude/telemetry/'' @ session_id @ ''-stats.json''"

definition update_session_statistics :: "ctx \<Rightarrow> string \<Rightarrow> world \<Rightarrow> world" where
  "update_session_statistics c session_id w =
     (let stats_file = stats_path c session_id in
      case bindE (if os_path_exists w stats_file then json_load c stats_file w else Inr (JObj []))
             (\<lambda>stats.
           bindE (py_get stats ''total_tools'' (JInt 0)) (\<lambda>old.
           bindE (py_add_one old) (\<lambda>new.
             case stats of
               JObj kvs \<Rightarrow>
                 write_file c stats_file
                   [JsonLine (JObj (AList.update ''last_update'' (JStr (now_iso c))
                                      (AList.update ''total_tools'' new kvs)))] w
             | _ \<Rightarrow> Inl TypeError))) of
        Inr w' \<Rightarrow> w'
      | Inl e \<Rightarrow> w)"

definition telemetry_collector_try :: "ctx \<Rightarrow> world \<Rightarrow> unit result" where
  "telemetry_collector_try c w =
     (case stdin c of
        None \<Rightarrow> Fail JSONDecodeError w
      | Some input_data \<Rightarrow>
          raise_or w (py_get input_data ''tool'' (JObj [])) (\<lambda>tool_info.
          raise_or w (py_get tool_info ''name'' (JStr [])) (\<lambda>name.
          raise_or w (py_get input_data ''result'' (JObj [])) (\<lambda>result.
          raise_or w (py_get input_data ''timing'' (JObj [])) (\<lambda>timing.
          raise_or w (as_str name) (\<lambda>tool_name.
            if \<not> prefix ''mcp__indesign__'' tool_name then Ok () (print_json input_data w)
            else if \<not> env_truthy w ''EVOLUTION_SESSION_ID'' then Ok () (print_json input_data w)
            else
              raise_or w (py_get timing ''total_ms'' (JInt 0)) (\<lambda>execution_time.
              raise_or w (complete_telemetry_record c w tool_info result execution_time)
                (\<lambda>completed_record.
                case write_telemetry_record c completed_record w of
                  Fail e w1 \<Rightarrow> Fail e w1
                | Ok _ w1 \<Rightarrow>
                    raise_or w1 (get_session_info w1) (\<lambda>session_info.
                      let w2 = (case si_session_id session_info of
                                  None \<Rightarrow> w1
                                | Some s \<Rightarrow> if s \<noteq> [] then update_session_statistics c s w1 else w1)
                      in Ok () (print_json input_data w2))))))))))"

definition telemetry_collector_main :: "ctx \<Rightarrow> world \<Rightarrow> world" where
  "telemetry_collector_main c w =
     (case telemetry_collector_try c w of
        Ok _ w' \<Rightarrow> w'
      | Fail e w' \<Rightarrow>
          print_json (JObj [(''result'', JObj []), (''tool'', JObj [(''name'', JStr ''unknown'')])]) w')"

section \<open>checkpoint-manager.py\<close>

definition log_path :: "ctx \<Rightarrow> string \<Rightarrow> string" where
  \<comment> \<open>\<^verbatim>\<open>os.path.join(telemetry_dir, f"{session_id}.jsonl")\<close>\<close>
  "log_path c session_id = path_join (telemetry_dir c) (session_id @ ''.jsonl'')"

definition finalize_telemetry_session :: "ctx \<Rightarrow> string \<Rightarrow> world \<Rightarrow> world" where
  "finalize_telemetry_session c session_id w =
     (if session_id = [] then w
      else
        let completion_record =
              JObj [(''timestamp'', JInt (now_ms c)),
                    (''session_id'', JStr session_id),
                    (''event'', JStr ''session_complete''),
                    (''completion_time'', JStr (now_iso c)),
                    (''capture_source'', JStr ''hook_stop'')]
        in case append_line c (log_path c session_id) (JsonLine completion_record) w of
             Inr w' \<Rightarrow> w'
           | Inl e \<Rightarrow> w)"

fun copy_matching ::
  "ctx \<Rightarrow> string \<Rightarrow> string \<Rightarrow> string \<Rightarrow> string list \<Rightarrow> string list \<Rightarrow> world \<Rightarrow> string list result" where
  "copy_matching c session_id tdir session_archive [] archived_files w = Ok archived_files w"
| "copy_matching c session_id tdir session_archive (filename # rest) archived_files w =
     (if sublist session_id filename then
        raise_or w (shutil_copy2 c (path_join tdir filename) (path_join session_archive filename) w)
          (\<lambda>w1. copy_matching c session_id tdir session_archive rest (archived_files @ [filename]) w1)
      else copy_matching c session_id tdir session_archive rest archived_files w)"

definition scratch_path :: "string \<Rightarrow> string" where
  \<comment> \<open>\<^verbatim>\<open>f"/tmp/evolution-{session_id}.json"\<close>\<close>
  "scratch_path session_id = ''/tmp/evolution-'' @ session_id @ ''.json''"

definition archive_try :: "ctx \<Rightarrow> string \<Rightarrow> string \<Rightarrow> world \<Rightarrow> unit result" where
  \<comment> \<open>the body of the \<^verbatim>\<open>try\<close> of \<^verbatim>\<open>archive_evolution_data\<close>; \<open>copy_matching\<close> is
      its loop over \<^verbatim>\<open>os.listdir(telemetry_dir)\<close>\<close>
  "archive_try c session_id session_archive w =
     (case (if os_path_exists w (telemetry_dir c)
            then raise_or w (os_listdir c (telemetry_dir c) w) (\<lambda>names.
                   copy_matching c session_id (telemetry_dir c) session_archive names [] w)
            else Ok [] w) of
        Fail e w1 \<Rightarrow> Fail e w1
      | Ok archived w1 \<Rightarrow>
          (case (if os_path_exists w1 (scratch_path session_id)
                 then raise_or w1 (shutil_copy2 c (scratch_path session_id)
                                     (path_join session_archive ''session-metadata.json'') w1) (\<lambda>w2.
                      raise_or w2 (os_remove c (scratch_path session_id) w2) (\<lambda>w3.
                        Ok (archived @ [''session-metadata.json'']) w3))
                 else Ok archived w1) of
             Fail e w4 \<Rightarrow> Fail e w4
           | Ok archived_files w4 \<Rightarrow>
               let archive_summary =
                     JObj [(''session_id'', JStr session_id),
                           (''archive_time'', JStr (now_iso c)),
                           (''archive_path'', JStr session_archive),
                           (''archived_files'', JArr (map JStr archived_files)),
                           (''total_files'', JInt (int (length archived_files)))]
               in raise_or w4 (write_file c (path_join session_archive ''archive-summary.json'')
                                 [JsonLine archive_summary] w4) (\<lambda>w5. Ok () w5)))"

definition archive_evolution_data :: "ctx \<Rightarrow> string \<Rightarrow> world \<Rightarrow> string option result" where
  \<comment> \<open>both \<^verbatim>\<open>os.makedirs\<close> stand before the \<^verbatim>\<open>try\<close>\<close>
  "archive_evolution_data c session_id w =
     (if session_id = [] then Ok None w
      else
        let archive_dir = home c @ ''/.claude/evolution-archive'' in
        raise_or w (os_makedirs c archive_dir w) (\<lambda>w1.
          let session_archive = path_join archive_dir (now_stamp c @ ''_'' @ session_id) in
          raise_or w1 (os_makedirs c session_archive w1) (\<lambda>w2.
            case archive_try c session_id session_archive w2 of
              Ok _ w3 \<Rightarrow> Ok (Some session_archive) w3
            | Fail e w3 \<Rightarrow> Ok None w3)))"

definition cleanup_step :: "ctx \<Rightarrow> world \<Rightarrow> string \<Rightarrow> world" where
  \<comment> \<open>the body of the loop of \<^verbatim>\<open>cleanup_temporary_files\<close>, with its bare \<^verbatim>\<open>except\<close>;
      3600 seconds are 3600000 milliseconds\<close>
  "cleanup_step c w temp_file =
     (case os_getmtime c temp_file w of
        Inl e \<Rightarrow> w
      | Inr m \<Rightarrow>
          if now_ms c - m > 3600000
          then (case os_remove c temp_file w of Inr w' \<Rightarrow> w' | Inl e \<Rightarrow> w)
          else w)"

definition cleanup_temporary_files :: "ctx \<Rightarrow> world \<Rightarrow> world" where
  "cleanup_temporary_files c w = foldl (cleanup_step c) w (glob_scratch w)"

definition resume_instructions :: "ctx \<Rightarrow> string \<Rightarrow> string \<Rightarrow> fline list" where
  "resume_instructions c session_id archive_path = map TextLine
     [''# Evolution Session Resume Instructions'',
      [],
      ''## Session Information'',
      ''- **Session ID**: '' @ session_id,
      ''- **Archive Time**: '' @ now_iso c,
      ''- **Archive Path**: '' @ archive_path,
      [],
      ''## To Resume Evolution Testing'',
      [],
      ''1. **Check archived telemetry**:'',
      ''   ```bash'',
      ''   ls '' @ archive_path,
      ''   cat '' @ archive_path @ ''/'' @ session_id @ ''.jsonl'',
      ''   ```'',
      [],
      ''2. **Restart evolution with same configuration**:'',
      ''   ```bash'',
      ''   npm run evolve:complete -- --resume-from='' @ session_id,
      ''   ```'',
      [],
      ''3. **Or manually continue**:'',
      ''   ```bash'',
      ''   # Set environment variables'',
      ''   export EVOLUTION_SESSION_ID='' @ session_id,
      ''   export TELEMETRY_ENABLED=true'',
      ''   '',
      ''   # Run next generation'',
      ''   npm run evolve:complete'',
      ''   ```'',
      [],
      ''## Archived Files'',
      ''- Telemetry data: `'' @ session_id @ ''.jsonl`'',
      ''- Session stats: `'' @ session_id @ ''-stats.json`'',
      ''- Session metadata: `session-metadata.json`'',
      ''- Archive summary: `archive-summary.json`'',
      [],
      ''## Notes'',
      ''This session was automatically checkpointed due to conversation boundary.'',
      ''All telemetry and progress data has been preserved for analysis or resumption.'']"

definition generate_resume_instructions :: "ctx \<Rightarrow> string \<Rightarrow> string option \<Rightarrow> world \<Rightarrow> world" where
  "generate_resume_instructions c session_id archive_path w =
     (case archive_path of
        None \<Rightarrow> w
      | Some p \<Rightarrow>
          if p = [] then w
          else
            let resume_file = path_join p ''RESUME_INSTRUCTIONS.md'' in
            case write_file c resume_file (resume_instructions c session_id p) w of
              Inr w' \<Rightarrow> w'
            | Inl e \<Rightarrow> w)"

definition clear_evolution_environment :: "world \<Rightarrow> world" where
  "clear_evolution_environment w =
     w\<lparr>environ := (environ w)(''EVOLUTION_SESSION_ID'' := None, ''EVOLUTION_SESSION_ACTIVE'' := None)\<rparr>"

definition checkpoint_manager_try :: "ctx \<Rightarrow> world \<Rightarrow> unit result" where
  "checkpoint_manager_try c w =
     (let input_data = (case stdin c of None \<Rightarrow> JObj [] | Some v \<Rightarrow> v) in
      raise_or w (get_session_info w) (\<lambda>session_info.
        case si_session_id session_info of
          None \<Rightarrow> Ok () (print_json input_data w)
        | Some session_id \<Rightarrow>
            if session_id \<noteq> [] \<and> env_truthy w ''EVOLUTION_SESSION_ACTIVE'' then
              let w1 = finalize_telemetry_session c session_id w in
              case archive_evolution_data c session_id w1 of
                Fail e w2 \<Rightarrow> Fail e w2
              | Ok archive_path w2 \<Rightarrow>
                  let w3 = generate_resume_instructions c session_id archive_path w2;
                      w4 = cleanup_temporary_files c w3;
                      w5 = clear_evolution_environment w4
                  in Ok () (print_json input_data w5)
            else Ok () (print_json input_data w)))"

definition checkpoint_manager_main :: "ctx \<Rightarrow> world \<Rightarrow> world" where
  "checkpoint_manager_main c w =
     (case checkpoint_manager_try c w of
        Ok _ w' \<Rightarrow> w'
      | Fail e w' \<Rightarrow> print_json (JObj []) w')"

section \<open>The four entry points\<close>

datatype entry_point = PreCapture | PostCapture | ClassifyAndStart | Checkpoint

definition run_entry :: "entry_point \<Rightarrow> ctx \<Rightarrow> world \<Rightarrow> world" where
  "run_entry ep c w =
     (case ep of
        PreCapture \<Rightarrow> telemetry_enhancer_main c w
      | PostCapture \<Rightarrow> telemetry_collector_main c w
      | ClassifyAndStart \<Rightarrow> task_interceptor_main c w
      | Checkpoint \<Rightarrow> checkpoint_manager_main c w)"

section \<open>Notions used to state the properties\<close>

definition dict_field :: "string \<Rightarrow> json \<Rightarrow> json option" where
  \<comment> \<open>the value stored under a key of a JSON object\<close>
  "dict_field k v = (case v of JObj kvs \<Rightarrow> map_of kvs k | _ \<Rightarrow> None)"

definition category_substrings :: "string list" where
  \<comment> \<open>the substrings the error classifier looks for\<close>
  "category_substrings =
     [''timeout'', ''permission'', ''access'', ''not found'', ''missing'', ''invalid'', ''parameter'']"

definition spec_error_category :: "string \<Rightarrow> string" where
  \<comment> \<open>In the words of the specification: the category of an error message, by substring
      match up to letter case, the categories taken in the order timeout, permission,
      not_found, parameter.\<close>
  "spec_error_category msg =
     (if occurs_ci ''timeout'' msg then ''timeout''
      else if occurs_ci ''permission'' msg \<or> occurs_ci ''access'' msg then ''permission''
      else if occurs_ci ''not found'' msg \<or> occurs_ci ''missing'' msg then ''not_found''
      else if occurs_ci ''invalid'' msg \<or> occurs_ci ''parameter'' msg then ''parameter''
      else ''unknown'')"

definition swept :: "ctx \<Rightarrow> world \<Rightarrow> string \<Rightarrow> bool" where
  \<comment> \<open>\<open>p\<close> is a file of \<open>w\<close> more than an hour old whose modification time can be
      read and which can be removed\<close>
  "swept c w p =
     (\<not> faulty c (Getmtime p) \<and> \<not> faulty c (Remove p)
      \<and> (\<exists>f. map_of (files w) p = Some f \<and> now_ms c - mtime f > 3600000))"

definition substitute :: "entry_point \<Rightarrow> json" where
  \<comment> \<open>the fixed object each script prints from the handler of its outer \<^verbatim>\<open>try\<close>\<close>
  "substitute ep =
     (case ep of
        PreCapture \<Rightarrow> JObj [(''tool'', JObj [(''name'', JStr ''unknown''), (''arguments'', JObj [])])]
      | PostCapture \<Rightarrow> JObj [(''result'', JObj []), (''tool'', JObj [(''name'', JStr ''unknown'')])]
      | ClassifyAndStart \<Rightarrow> JObj [(''tool'', JObj [(''name'', JStr ''Task''), (''arguments'', JObj [])])]
      | Checkpoint \<Rightarrow> JObj [])"

definition is_object :: "json \<Rightarrow> bool" where
  "is_object v = (case v of JObj kvs \<Rightarrow> True | _ \<Rightarrow> False)"

fun world_of :: "'a result \<Rightarrow> world" where
  "world_of (Ok a w) = w"
| "world_of (Fail e w) = w"

definition starts_session :: "json \<Rightarrow> bool" where
  \<comment> \<open>the envelope is a call of the tool \<^verbatim>\<open>Task\<close> whose prompt the classifier accepts\<close>
  "starts_session v =
     (case bindE (py_get v ''tool'' (JObj [])) (\<lambda>t. py_get t ''name'' (JStr [])) of
        Inr tool_name \<Rightarrow>
          tool_name = JStr ''Task'' \<and>
          (case bindE (py_get v ''tool'' (JObj [])) (\<lambda>t. py_get t ''arguments'' (JObj [])) of
             Inr parameters \<Rightarrow>
               (case py_get parameters ''prompt'' (JStr []) of
                  Inr (JStr p) \<Rightarrow> is_evolution_prompt p
                | _ \<Rightarrow> False)
           | Inl e \<Rightarrow> False)
      | Inl e \<Rightarrow> False)"

definition session_metadata :: "ctx \<Rightarrow> string \<Rightarrow> string \<Rightarrow> json" where
  \<comment> \<open>the scratch metadata of a session started from prompt \<open>p\<close>\<close>
  "session_metadata c session_id p =
     JObj [(''session_id'', JStr session_id),
           (''reference'', (case extract_reference_info p of None \<Rightarrow> JNull | Some r \<Rightarrow> JStr r)),
           (''start_time'', JStr (now_iso c)),
           (''intercepted'', JBool True)]"

definition keeps :: "world \<Rightarrow> world \<Rightarrow> bool" where
  \<comment> \<open>the second world has the output and the environment of the first\<close>
  "keeps w w' = (stdout w' = stdout w \<and> environ w' = environ w)"

definition tool_name_of :: "json \<Rightarrow> string option" where
  \<comment> \<open>the tool name of an envelope: the envelope is an object, its tool descriptor (when
      present) is an object, and the name (when present, else the empty string) is a string\<close>
  "tool_name_of v =
     (case bindE (py_get v ''tool'' (JObj [])) (\<lambda>t. py_get t ''name'' (JStr [])) of
        Inr (JStr n) \<Rightarrow> Some n
      | _ \<Rightarrow> None)"

definition task_prompt_of :: "json \<Rightarrow> string option" where
  \<comment> \<open>the prompt of an envelope whose arguments (when present) are an object and whose
      prompt (when present, else the empty string) is a string\<close>
  "task_prompt_of v =
     (case bindE (py_get v ''tool'' (JObj [])) (\<lambda>t. py_get t ''arguments'' (JObj [])) of
        Inr parameters \<Rightarrow>
          (case py_get parameters ''prompt'' (JStr []) of
             Inr (JStr p) \<Rightarrow> Some p
           | _ \<Rightarrow> None)
      | Inl e \<Rightarrow> None)"

definition generation_parses :: "world \<Rightarrow> bool" where
  \<comment> \<open>\<^verbatim>\<open>get_session_info\<close> returns: \<^verbatim>\<open>TELEMETRY_GENERATION\<close> is not a string of digits in
      the sense of \<^verbatim>\<open>isdigit\<close> that \<^verbatim>\<open>int\<close> rejects\<close>
  "generation_parses w = (case get_session_info w of Inr si \<Rightarrow> True | Inl e \<Rightarrow> False)"

definition completion_event :: "json \<Rightarrow> bool" where
  \<comment> \<open>a completion event of the observed toolset: the tool name has the prefix, and the
      result descriptor and the timing (each an empty object when absent) are objects\<close>
  "completion_event v =
     (case tool_name_of v of
        Some n \<Rightarrow>
          prefix ''mcp__indesign__'' n
          \<and> (case py_get v ''result'' (JObj []) of Inr r \<Rightarrow> is_object r | Inl e \<Rightarrow> False)
          \<and> (case py_get v ''timing'' (JObj []) of Inr t \<Rightarrow> is_object t | Inl e \<Rightarrow> False)
      | None \<Rightarrow> False)"

definition capture_event :: "json \<Rightarrow> bool" where
  \<comment> \<open>an invocation event of the observed toolset: the tool name has the prefix, and the
      arguments (an empty object when absent) have a length\<close>
  "capture_event v =
     (case tool_name_of v of
        Some n \<Rightarrow>
          prefix ''mcp__indesign__'' n
          \<and> (case bindE (py_get v ''tool'' (JObj [])) (\<lambda>t. py_get t ''arguments'' (JObj [])) of
                Inr a \<Rightarrow> (case py_len a of Inr k \<Rightarrow> True | Inl e \<Rightarrow> False)
              | Inl e \<Rightarrow> False)
      | None \<Rightarrow> False)"

definition with_telemetry_dir :: "ctx \<Rightarrow> world \<Rightarrow> world" where
  \<comment> \<open>the world after \<^verbatim>\<open>os.makedirs(telemetry_dir, exist_ok=True)\<close> has succeeded\<close>
  "with_telemetry_dir c w = w\<lparr>dirs := List.insert (telemetry_dir c) (dirs w)\<rparr>"

definition lines_of :: "world \<Rightarrow> string \<Rightarrow> fline list" where
  \<comment> \<open>the lines of a file; none when there is no such file\<close>
  "lines_of w p = (case map_of (files w) p of None \<Rightarrow> [] | Some f \<Rightarrow> content f)"


fun run_all :: "(entry_point \<times> ctx) list \<Rightarrow> world \<Rightarrow> world" where
  \<comment> \<open>a sequence of invocations, each a process of its own, on the world the one before
      has left\<close>
  "run_all [] w = w"
| "run_all ((ep, c) # rest) w = run_all rest (run_entry ep c w)"

definition source_tag :: "entry_point \<Rightarrow> string" where
  \<comment> \<open>the \<^verbatim>\<open>capture_source\<close> each script writes into its records\<close>
  "source_tag ep =
     (case ep of
        PreCapture \<Rightarrow> ''hook_preuse''
      | PostCapture \<Rightarrow> ''hook_postuse''
      | ClassifyAndStart \<Rightarrow> []
      | Checkpoint \<Rightarrow> ''hook_stop'')"

definition good_capture :: "string \<Rightarrow> entry_point \<times> ctx \<Rightarrow> bool" where
  \<comment> \<open>a pre-capture of an invocation event, or a post-capture of a completion event, of
      the observed toolset, under the home directory \<open>hm\<close>, in which no operation of
      the file system fails\<close>
  "good_capture hm call =
     (case call of (ep, c) \<Rightarrow>
        home c = hm \<and> (\<forall>op. \<not> faulty c op)
        \<and> (case stdin c of
              Some v \<Rightarrow> (ep = PreCapture \<and> capture_event v) \<or> (ep = PostCapture \<and> completion_event v)
            | None \<Rightarrow> False))"

definition session_log :: "string \<Rightarrow> string \<Rightarrow> string" where
  \<comment> \<open>the log of session \<open>sid\<close> under the home directory \<open>hm\<close>\<close>
  "session_log hm sid = path_join (hm @ ''/.claude/telemetry'') (sid @ ''.jsonl'')"

definition line_source :: "fline \<Rightarrow> json option" where
  \<comment> \<open>the \<^verbatim>\<open>capture_source\<close> of a line of a log\<close>
  "line_source l = (case l of JsonLine v \<Rightarrow> dict_field ''capture_source'' v | TextLine s \<Rightarrow> None)"

definition interceptor_accepts :: "json \<Rightarrow> bool" where
  \<comment> \<open>what the classify-and-start entry point can read without raising: the envelope is
      an object, its tool descriptor (when present) is an object and, for a call of
      \<^verbatim>\<open>Task\<close>, the arguments (when present) are an object and the prompt (when present) is
      a string\<close>
  "interceptor_accepts v =
     (case bindE (py_get v ''tool'' (JObj [])) (\<lambda>t. py_get t ''name'' (JStr [])) of
        Inr tool_name \<Rightarrow> tool_name = JStr ''Task'' \<longrightarrow> task_prompt_of v \<noteq> None
      | Inl e \<Rightarrow> False)"

definition ci_prefix :: "string \<Rightarrow> string \<Rightarrow> bool" where
  \<comment> \<open>the text starts with the label, letters compared up to case\<close>
  "ci_prefix l s = prefix (py_lower l) (py_lower s)"

definition only_newlines :: "string \<Rightarrow> bool" where
  \<comment> \<open>the text holds nothing but line breaks\<close>
  "only_newlines s = list_all (\<lambda>y. y = CHR 0x0A) s"

definition rest_of_line :: "string \<Rightarrow> string" where
  \<comment> \<open>the text up to the end of the line\<close>
  "rest_of_line s = takeWhile (\<lambda>y. y \<noteq> CHR 0x0A) s"

fun label_text :: "string \<Rightarrow> string \<Rightarrow> string option" where
  \<comment> \<open>at the leftmost occurrence of the label that is followed by something other than
      line breaks: the text after the label, its leading whitespace skipped (line breaks
      are whitespace), up to the end of the line, trimmed\<close>
  "label_text l [] = None"
| "label_text l (x # xs) =
     (if ci_prefix l (x # xs) \<and> \<not> only_newlines (drop (length l) (x # xs))
      then Some (py_strip (rest_of_line (dropWhile py_isspace (drop (length l) (x # xs)))))
      else label_text l xs)"

definition reference_of :: "string \<Rightarrow> string option" where
  \<comment> \<open>the two labels in their order\<close>
  "reference_of t =
     (case label_text ''reference image:'' t of
        Some r \<Rightarrow> Some r
      | None \<Rightarrow> label_text ''reference:'' t)"

fun spec_label_line :: "string \<Rightarrow> string \<Rightarrow> string option" where
  \<comment> \<open>In the words of the specification: the text that follows the leftmost occurrence
      of the label, up to the end of the line, trimmed.\<close>
  "spec_label_line l [] = None"
| "spec_label_line l (x # xs) =
     (if ci_prefix l (x # xs)
      then Some (py_strip (rest_of_line (drop (length l) (x # xs))))
      else spec_label_line l xs)"

definition spec_extract_reference :: "string \<Rightarrow> string option" where
  \<comment> \<open>In the words of the specification: the first label that is found, among
      \<^verbatim>\<open>reference image:\<close> and \<^verbatim>\<open>reference:\<close> in this order.\<close>
  "spec_extract_reference t =
     (case spec_label_line ''reference image:'' t of
        Some r \<Rightarrow> Some r
      | None \<Rightarrow> spec_label_line ''reference:'' t)"

definition written_by :: "entry_point \<times> ctx \<Rightarrow> fline \<Rightarrow> bool" where
  \<comment> \<open>the line is the record of the invocation: a JSON object whose \<^verbatim>\<open>capture_source\<close>
      is the tag of the entry point, and which holds no non-finite number when the event
      holds none\<close>
  "written_by call l =
     (case l of
        JsonLine v \<Rightarrow>
          is_object v
          \<and> dict_field ''capture_source'' v = Some (JStr (source_tag (fst call)))
          \<and> (case stdin (snd call) of
                Some x \<Rightarrow> valid_json x \<longrightarrow> valid_json v
              | None \<Rightarrow> False)
      | TextLine s \<Rightarrow> False)"

section \<open>Concrete inputs\<close>

definition quiet_ctx :: "json option \<Rightarrow> int \<Rightarrow> ctx" where
  \<comment> \<open>an invocation at time \<open>t\<close> in which no operation of the file system fails\<close>
  "quiet_ctx input t =
     \<lparr>stdin = input, now_ms = t, now_iso = ''2023-11-14T22:13:20'',
      now_stamp = ''20231114_221320'', uuid4 = ''1b4e28ba-2fa1-11d2-883f-0016d3cca427'',
      home = ''/home/u'', faulty = (\<lambda>op. False), py_repr = (\<lambda>v. ''?'')\<rparr>"

definition empty_world :: world where
  "empty_world = \<lparr>environ = Map.empty, files = [], dirs = [], stdout = []\<rparr>"

definition two_scratch_files :: world where
  \<comment> \<open>at time 1700000000000: one scratch file 90 minutes old, one 30 minutes old\<close>
  "two_scratch_files =
     empty_world\<lparr>files :=
       [(''/tmp/evolution-old.json'', \<lparr>content = [], mtime = 1699994600000\<rparr>),
        (''/tmp/evolution-new.json'', \<lparr>content = [], mtime = 1699998200000\<rparr>)]\<rparr>"

definition task_envelope :: json where
  \<comment> \<open>a call of \<^verbatim>\<open>Task\<close> whose prompt holds three phrases of the vocabulary\<close>
  "task_envelope =
     JObj [(''tool'', JObj [(''name'', JStr ''Task''),
            (''arguments'', JObj [(''prompt'',
               JStr ''Recreate this InDesign page. Reference image: cover.png'')])])]"

definition tool_envelope :: json where
  \<comment> \<open>a completion event of a tool of the observed toolset\<close>
  "tool_envelope =
     JObj [(''tool'', JObj [(''name'', JStr ''mcp__indesign__add_text''),
                            (''arguments'', JObj [(''text'', JStr ''Chapter 1'')])]),
           (''result'', JObj [(''content'', JStr ''ok'')]),
           (''timing'', JObj [(''total_ms'', JInt 12)])]"

definition archive_blocked_ctx :: "int \<Rightarrow> ctx" where
  \<comment> \<open>a checkpoint invocation in which the archive root cannot be created\<close>
  "archive_blocked_ctx t =
     (quiet_ctx None t)\<lparr>faulty := (\<lambda>op. op = Makedirs ''/home/u/.claude/evolution-archive'')\<rparr>"

definition active_session_world :: world where
  \<comment> \<open>at time 1700000000000: an active session \<^verbatim>\<open>s1\<close> with a log of one line, and the
      scratch file of an abandoned session, 90 minutes old\<close>
  "active_session_world =
     \<lparr>environ = [''EVOLUTION_SESSION_ID'' \<mapsto> ''s1'', ''EVOLUTION_SESSION_ACTIVE'' \<mapsto> ''1''],
      files = [(''/home/u/.claude/telemetry/s1.jsonl'',
                  \<lparr>content = [JsonLine (JObj [(''capture_source'', JStr ''hook_preuse'')])],
                   mtime = 1699999999000\<rparr>),
               (''/tmp/evolution-old.json'', \<lparr>content = [], mtime = 1699994600000\<rparr>)],
      dirs = [''/home/u/.claude/telemetry''],
      stdout = []\<rparr>"


definition overflow_envelope :: json where
  \<comment> \<open>what \<^verbatim>\<open>json.loads\<close> returns for the JSON text \<^verbatim>\<open>{"x": 1e999}\<close>\<close>
  "overflow_envelope = JObj [(''x'', JNonFinite PosInf)]"

definition labelled_prompt :: string where
  \<comment> \<open>two lines: \<^verbatim>\<open>Reference: cover.png\<close>, then \<^verbatim>\<open>Other text\<close>\<close>
  "labelled_prompt = ''Reference: cover.png'' @ [CHR 0x0A] @ ''Other text''"

definition label_before_line_break :: string where
  \<comment> \<open>two lines: \<^verbatim>\<open>Reference:\<close>, then \<^verbatim>\<open>cover.png\<close>\<close>
  "label_before_line_break = ''Reference:'' @ [CHR 0x0A] @ ''cover.png''"

definition session_world :: world where
  \<comment> \<open>the session \<^verbatim>\<open>s1\<close> before its first event\<close>
  "session_world = empty_world\<lparr>environ := [''EVOLUTION_SESSION_ID'' \<mapsto> ''s1'']\<rparr>"

definition one_call :: "(entry_point \<times> ctx) list" where
  \<comment> \<open>one tool call of the observed toolset: the event before it, the event after it\<close>
  "one_call =
     [(PreCapture, quiet_ctx (Some tool_envelope) 1700000000123),
      (PostCapture, quiet_ctx (Some tool_envelope) 1700000000135)]"

section \<open>Properties of the classifier\<close>

lemma sublist_map_iff:
  "sublist k (map f p) \<longleftrightarrow> (\<exists>u v w. p = u @ v @ w \<and> map f v = k)"
proof
  assume "sublist k (map f p)"
  then obtain ps ss where "map f p = ps @ k @ ss" by (auto simp: sublist_def)
  then obtain u r where p: "p = u @ r" and "ps = map f u" and r: "k @ ss = map f r"
    unfolding map_eq_append_conv by blast
  from r obtain v w where "r = v @ w" and "k = map f v" and "ss = map f w"
    unfolding append_eq_map_conv by blast
  with p show "\<exists>u v w. p = u @ v @ w \<and> map f v = k" by blast
next
  assume "\<exists>u v w. p = u @ v @ w \<and> map f v = k"
  then obtain u v w where "p = u @ v @ w" and "map f v = k" by blast
  then have "map f p = map f u @ k @ map f w" by simp
  then show "sublist k (map f p)" unfolding sublist_def by blast
qed

lemma occurs_ci_code [code]: "occurs_ci k p = sublist (py_lower k) (py_lower p)"
  unfolding occurs_ci_def py_lower_def by (auto simp: sublist_map_iff[of _ py_lower_char p])

lemma keywords_lower: "k \<in> set evolution_keywords \<Longrightarrow> py_lower k = k"
  unfolding evolution_keywords_def by (auto; code_simp)

lemma keywords_distinct: "distinct evolution_keywords"
  unfolding evolution_keywords_def by simp

lemma sum_ones_filter: "sum_list [1 :: int. k \<leftarrow> ks, P k] = int (length (filter P ks))"
  by (induction ks) auto

lemma matches_card:
  "sum_list [1 :: int. k \<leftarrow> evolution_keywords, sublist k (py_lower p)]
     = int (card {k \<in> set evolution_keywords. occurs_ci k p})"
proof -
  have "{k \<in> set evolution_keywords. occurs_ci k p}
        = set (filter (\<lambda>k. sublist k (py_lower p)) evolution_keywords)"
    by (auto simp: occurs_ci_code keywords_lower)
  moreover have "distinct (filter (\<lambda>k. sublist k (py_lower p)) evolution_keywords)"
    using keywords_distinct by simp
  ultimately have "card {k \<in> set evolution_keywords. occurs_ci k p}
        = length (filter (\<lambda>k. sublist k (py_lower p)) evolution_keywords)"
    using distinct_card by metis
  then show ?thesis
    by (simp only: sum_ones_filter)
qed

lemma classify_iff: "is_evolution_prompt p \<longleftrightarrow> 3 \<le> card {k \<in> set evolution_keywords. occurs_ci k p}"
  unfolding is_evolution_prompt_def Let_def matches_card by simp

lemma three_subset:
  assumes "a \<in> S" "b \<in> S" "c \<in> S" "a \<noteq> b" "a \<noteq> c" "b \<noteq> c" "finite S"
  shows "3 \<le> card S"
proof -
  have "card {a, b, c} \<le> card S" using assms by (intro card_mono) auto
  moreover have "card {a, b, c} = 3" using assms by simp
  ultimately show ?thesis by simp
qed

text \<open>
  Claim C4. \<^verbatim>\<open>is_evolution_prompt\<close> holds exactly when at least three distinct phrases of
  the vocabulary occur in the prompt up to letter case. A prompt in which ``recreate this'',
  ``InDesign'' and ``reference image'' occur is classified true; a prompt in which
  ``recreate this'' is the only vocabulary phrase that occurs is classified false.
\<close>

theorem is_evolution_prompt_three_distinct:
  "(is_evolution_prompt p \<longleftrightarrow> 3 \<le> card {k \<in> set evolution_keywords. occurs_ci k p})
   \<and> (occurs_ci ''recreate this'' p \<and> occurs_ci ''InDesign'' p \<and> occurs_ci ''reference image'' p
        \<longrightarrow> is_evolution_prompt p)
   \<and> (occurs_ci ''recreate this'' p
        \<and> (\<forall>k \<in> set evolution_keywords. k \<noteq> ''recreate this'' \<longrightarrow> \<not> occurs_ci k p)
        \<longrightarrow> \<not> is_evolution_prompt p)"
proof (intro conjI impI)
  show "is_evolution_prompt p \<longleftrightarrow> 3 \<le> card {k \<in> set evolution_keywords. occurs_ci k p}"
    by (rule classify_iff)
next
  assume h: "occurs_ci ''recreate this'' p \<and> occurs_ci ''InDesign'' p \<and> occurs_ci ''reference image'' p"
  let ?S = "{k \<in> set evolution_keywords. occurs_ci k p}"
  have low: "py_lower ''InDesign'' = py_lower ''indesign''" by code_simp
  have i: "occurs_ci ''indesign'' p" using h by (simp add: occurs_ci_code low)
  have "''recreate this'' \<in> ?S" "''indesign'' \<in> ?S" "''reference image'' \<in> ?S"
    using h i by (simp_all add: evolution_keywords_def)
  then have "3 \<le> card ?S" by (rule three_subset) simp_all
  then show "is_evolution_prompt p" by (simp add: classify_iff)
next
  assume h: "occurs_ci ''recreate this'' p
        \<and> (\<forall>k \<in> set evolution_keywords. k \<noteq> ''recreate this'' \<longrightarrow> \<not> occurs_ci k p)"
  then have "{k \<in> set evolution_keywords. occurs_ci k p} \<subseteq> {''recreate this''}" by blast
  then have "card {k \<in> set evolution_keywords. occurs_ci k p} \<le> card {''recreate this''}"
    by (intro card_mono) auto
  then show "\<not> is_evolution_prompt p" by (simp add: classify_iff)
qed

theorem is_evolution_prompt_three_distinct_witness:
  "is_evolution_prompt ''Please Recreate This InDesign page from the Reference Image''
   \<and> \<not> is_evolution_prompt ''recreate this''"
proof -
  let ?p = "''Please Recreate This InDesign page from the Reference Image''"
  have a: "occurs_ci ''recreate this'' ?p \<and> occurs_ci ''InDesign'' ?p \<and> occurs_ci ''reference image'' ?p"
    by code_simp
  have b: "occurs_ci ''recreate this'' ''recreate this''
        \<and> (\<forall>k \<in> set evolution_keywords. k \<noteq> ''recreate this'' \<longrightarrow> \<not> occurs_ci k ''recreate this'')"
    by code_simp
  show ?thesis
    using a b is_evolution_prompt_three_distinct[of ?p]
      is_evolution_prompt_three_distinct[of "''recreate this''"] by blast
qed

section \<open>Properties of the error classifier\<close>

lemma py_get_obj: "py_get d k dflt = Inr v \<Longrightarrow> \<exists>kvs. d = JObj kvs \<and> v = (case map_of kvs k of Some x \<Rightarrow> x | None \<Rightarrow> dflt)"
  by (auto simp: py_get_def split: json.splits)

lemma lower_consts:
  "py_lower ''timeout'' = ''timeout''" "py_lower ''permission'' = ''permission''"
  "py_lower ''access'' = ''access''" "py_lower ''not found'' = ''not found''"
  "py_lower ''missing'' = ''missing''" "py_lower ''invalid'' = ''invalid''"
  "py_lower ''parameter'' = ''parameter''"
  by code_simp+

lemma occurs_ci_sublist: "occurs_ci a b \<Longrightarrow> occurs_ci b c \<Longrightarrow> occurs_ci a c"
  by (meson occurs_ci_code sublist_order.order.trans)

lemma analysis_shape:
  assumes "py_get result ''error'' JNull = Inr err"
  shows "\<exists>a. analyze_tool_result repr tool_name result = Inr a
     \<and> dict_field ''success'' a = Some (JBool (\<not> truthy err))
     \<and> dict_field ''error_type'' a =
          Some (if truthy err then JStr (spec_error_category (py_str repr err)) else JNull)"
proof -
  from py_get_obj[OF assms] obtain kvs where r: "result = JObj kvs"
    and e: "err = (case map_of kvs ''error'' of Some x \<Rightarrow> x | None \<Rightarrow> JNull)" by blast
  have g: "py_get (JObj kvs) ''error'' JNull = Inr err" using assms r by simp
  have c: "\<exists>v. py_get (JObj kvs) ''content'' JNull = Inr v" by (simp add: py_get_def)
  then obtain cv where cv: "py_get (JObj kvs) ''content'' JNull = Inr cv" by blast
  show ?thesis
    unfolding r analyze_tool_result_def g cv bindE_def spec_error_category_def
    by (simp add: Let_def dict_field_def occurs_ci_code lower_consts)
qed

lemma bindE_Inr: "bindE m f = Inr y \<longleftrightarrow> (\<exists>x. m = Inr x \<and> f x = Inr y)"
  by (cases m) (auto simp: bindE_def)

lemma complete_record_fields:
  assumes "complete_telemetry_record c w tool_call result t = Inr record"
    and "py_get result ''error'' JNull = Inr err"
  shows "map_of record ''result'' = Some (JStr (if truthy err then ''error'' else ''success''))"
    and "map_of record ''capture_source'' = Some (JStr ''hook_postuse'')"
  using assms
  by (auto simp: complete_telemetry_record_def bindE_Inr Let_def update_conv' split: if_splits)

text \<open>
  Claim C6, as amended. For a result descriptor with an error, the classifier puts the
  message \<^verbatim>\<open>str(error)\<close> into one of timeout, permission, not_found, parameter and unknown
  by substring match up to letter case, testing the categories in this order. A message
  containing ``Timeout after 30s'' is a timeout; a message containing ``permission denied''
  is a permission error provided it does not contain ``timeout''; a message containing
  none of the category substrings is unknown. Without an error, \<^verbatim>\<open>error_type\<close> is
  \<^verbatim>\<open>None\<close>, \<^verbatim>\<open>success\<close> is true and the completed record's result is ``success''.
\<close>

theorem analyze_tool_result_error_type:
  assumes "py_get result ''error'' JNull = Inr err"
  shows "\<exists>a. analyze_tool_result repr tool_name result = Inr a
     \<and> dict_field ''success'' a = Some (JBool (\<not> truthy err))
     \<and> (\<not> truthy err \<longrightarrow> dict_field ''error_type'' a = Some JNull)
     \<and> (truthy err \<longrightarrow>
           dict_field ''error_type'' a = Some (JStr (spec_error_category (py_str repr err)))
         \<and> spec_error_category (py_str repr err)
             \<in> {''timeout'', ''permission'', ''not_found'', ''parameter'', ''unknown''}
         \<and> (occurs_ci ''Timeout after 30s'' (py_str repr err)
               \<longrightarrow> dict_field ''error_type'' a = Some (JStr ''timeout''))
         \<and> (occurs_ci ''permission denied'' (py_str repr err)
               \<and> \<not> occurs_ci ''timeout'' (py_str repr err)
               \<longrightarrow> dict_field ''error_type'' a = Some (JStr ''permission''))
         \<and> ((\<forall>k \<in> set category_substrings. \<not> occurs_ci k (py_str repr err))
               \<longrightarrow> dict_field ''error_type'' a = Some (JStr ''unknown'')))
     \<and> (\<forall>c w tool_call t record.
           complete_telemetry_record c w tool_call result t = Inr record
           \<longrightarrow> map_of record ''result''
                 = Some (JStr (if truthy err then ''error'' else ''success'')))"
proof -
  from analysis_shape[OF assms, of repr tool_name] obtain a where
    a: "analyze_tool_result repr tool_name result = Inr a"
    and s: "dict_field ''success'' a = Some (JBool (\<not> truthy err))"
    and t: "dict_field ''error_type'' a =
          Some (if truthy err then JStr (spec_error_category (py_str repr err)) else JNull)"
    by blast
  let ?m = "py_str repr err"
  have t1: "occurs_ci ''timeout'' ''Timeout after 30s''" by code_simp
  have p1: "occurs_ci ''permission'' ''permission denied''" by code_simp
  have c1: "occurs_ci ''Timeout after 30s'' ?m \<Longrightarrow> spec_error_category ?m = ''timeout''"
    using occurs_ci_sublist[OF t1] by (simp add: spec_error_category_def)
  have c2: "occurs_ci ''permission denied'' ?m \<Longrightarrow> \<not> occurs_ci ''timeout'' ?m
              \<Longrightarrow> spec_error_category ?m = ''permission''"
    using occurs_ci_sublist[OF p1] by (simp add: spec_error_category_def)
  have c3: "\<forall>k \<in> set category_substrings. \<not> occurs_ci k ?m \<Longrightarrow> spec_error_category ?m = ''unknown''"
    by (simp add: spec_error_category_def category_substrings_def)
  have c4: "spec_error_category ?m \<in> {''timeout'', ''permission'', ''not_found'', ''parameter'', ''unknown''}"
    by (simp add: spec_error_category_def)
  have r: "\<forall>c w tool_call t record.
           complete_telemetry_record c w tool_call result t = Inr record
           \<longrightarrow> map_of record ''result''
                 = Some (JStr (if truthy err then ''error'' else ''success''))"
    using complete_record_fields(1)[OF _ assms] by blast
  show ?thesis
    using a s t c1 c2 c3 c4 r by auto
qed

theorem analyze_tool_result_error_type_witness:
  "(\<exists>a. analyze_tool_result (\<lambda>v. []) JNull (JObj [(''error'', JStr ''Timeout after 30s'')]) = Inr a
      \<and> dict_field ''error_type'' a = Some (JStr ''timeout''))
   \<and> (\<exists>a. analyze_tool_result (\<lambda>v. []) JNull (JObj [(''error'', JStr ''Permission denied: /x'')]) = Inr a
      \<and> dict_field ''error_type'' a = Some (JStr ''permission''))
   \<and> (\<exists>a. analyze_tool_result (\<lambda>v. []) JNull (JObj [(''error'', JStr ''boom'')]) = Inr a
      \<and> dict_field ''error_type'' a = Some (JStr ''unknown''))
   \<and> (\<exists>a. analyze_tool_result (\<lambda>v. []) JNull (JObj [(''content'', JStr ''ok'')]) = Inr a
      \<and> dict_field ''error_type'' a = Some JNull \<and> dict_field ''success'' a = Some (JBool True))"
proof -
  have g1: "py_get (JObj [(''error'', JStr ''Timeout after 30s'')]) ''error'' JNull = Inr (JStr ''Timeout after 30s'')"
    and g2: "py_get (JObj [(''error'', JStr ''Permission denied: /x'')]) ''error'' JNull = Inr (JStr ''Permission denied: /x'')"
    and g3: "py_get (JObj [(''error'', JStr ''boom'')]) ''error'' JNull = Inr (JStr ''boom'')"
    and g4: "py_get (JObj [(''content'', JStr ''ok'')]) ''error'' JNull = Inr JNull"
    by (simp_all add: py_get_def)
  have o1: "occurs_ci ''Timeout after 30s'' ''Timeout after 30s''" by code_simp
  have o2: "occurs_ci ''permission denied'' ''Permission denied: /x'' \<and> \<not> occurs_ci ''timeout'' ''Permission denied: /x''"
    by code_simp
  have o3: "\<forall>k \<in> set category_substrings. \<not> occurs_ci k ''boom''" by code_simp
  have w1: "\<exists>a. analyze_tool_result (\<lambda>v. []) JNull (JObj [(''error'', JStr ''Timeout after 30s'')]) = Inr a
      \<and> dict_field ''error_type'' a = Some (JStr ''timeout'')"
    using analyze_tool_result_error_type[OF g1, of "\<lambda>v. []" JNull] o1
    by (auto simp: truthy_def py_str_def)
  have w2: "\<exists>a. analyze_tool_result (\<lambda>v. []) JNull (JObj [(''error'', JStr ''Permission denied: /x'')]) = Inr a
      \<and> dict_field ''error_type'' a = Some (JStr ''permission'')"
    using analyze_tool_result_error_type[OF g2, of "\<lambda>v. []" JNull] o2
    by (auto simp: truthy_def py_str_def)
  have w3: "\<exists>a. analyze_tool_result (\<lambda>v. []) JNull (JObj [(''error'', JStr ''boom'')]) = Inr a
      \<and> dict_field ''error_type'' a = Some (JStr ''unknown'')"
    using analyze_tool_result_error_type[OF g3, of "\<lambda>v. []" JNull] o3
    by (auto simp: truthy_def py_str_def)
  have w4: "\<exists>a. analyze_tool_result (\<lambda>v. []) JNull (JObj [(''content'', JStr ''ok'')]) = Inr a
      \<and> dict_field ''error_type'' a = Some JNull \<and> dict_field ''success'' a = Some (JBool True)"
    using analyze_tool_result_error_type[OF g4, of "\<lambda>v. []" JNull]
    by (auto simp: truthy_def)
  show ?thesis
    using w1 w2 w3 w4 by (intro conjI)
qed

text \<open>
  Claim C6 as stated fails: a message that contains ``permission denied'' and also
  ``timeout'' is classified as a timeout, because that test comes first.
\<close>

theorem permission_denied_counterexample:
  "occurs_ci ''permission denied'' ''permission denied after timeout''
   \<and> analyze_tool_result (\<lambda>v. []) JNull (JObj [(''error'', JStr ''permission denied after timeout'')])
       = Inr (JObj [(''success'', JBool False), (''has_content'', JBool False),
                    (''result_size'', JInt 0), (''error_type'', JStr ''timeout'')])"
  by code_simp

section \<open>Properties of the cleanup sweep\<close>

lemma cleanup_step_eq:
  "cleanup_step c w x = (if swept c w x then w\<lparr>files := AList.delete x (files w)\<rparr> else w)"
  by (auto simp: cleanup_step_def swept_def os_getmtime_def os_remove_def is_file_def
           split: option.splits)

lemma swept_delete:
  "swept c (w\<lparr>files := AList.delete x (files w)\<rparr>) k \<longleftrightarrow> k \<noteq> x \<and> swept c w k"
  by (auto simp: swept_def delete_conv')

lemma cleanup_loop_files:
  "files (foldl (cleanup_step c) w ps)
     = filter (\<lambda>kv. \<not> (fst kv \<in> set ps \<and> swept c w (fst kv))) (files w)"
proof (induction ps arbitrary: w)
  case Nil
  then show ?case by simp
next
  case (Cons x xs)
  show ?case
  proof (cases "swept c w x")
    case True
    let ?w' = "w\<lparr>files := AList.delete x (files w)\<rparr>"
    have step: "cleanup_step c w x = ?w'"
      using True by (simp add: cleanup_step_eq)
    have del: "files ?w' = filter (\<lambda>kv. fst kv \<noteq> x) (files w)"
      by (simp add: AList.delete_eq case_prod_unfold eq_commute[of x])
    have "files (foldl (cleanup_step c) w (x # xs))
        = filter (\<lambda>kv. \<not> (fst kv \<in> set xs \<and> swept c ?w' (fst kv))) (files ?w')"
      unfolding foldl_Cons step by (rule Cons.IH)
    also have "\<dots> = filter (\<lambda>kv. \<not> (fst kv \<in> set xs \<and> swept c ?w' (fst kv)))
            (filter (\<lambda>kv. fst kv \<noteq> x) (files w))"
      unfolding del ..
    also have "\<dots> = filter (\<lambda>kv. \<not> (fst kv \<in> set (x # xs) \<and> swept c w (fst kv))) (files w)"
      unfolding filter_filter using True
      by (intro filter_cong) (auto simp: swept_delete)
    finally show ?thesis .
  next
    case False
    then show ?thesis using Cons.IH[of w]
      by (auto simp: cleanup_step_eq intro!: filter_cong)
  qed
qed

lemma cleanup_loop_rest:
  "environ (foldl (cleanup_step c) w ps) = environ w
   \<and> dirs (foldl (cleanup_step c) w ps) = dirs w
   \<and> stdout (foldl (cleanup_step c) w ps) = stdout w"
  by (induction ps arbitrary: w) (auto simp: cleanup_step_eq)

lemma glob_scratch_mem:
  "p \<in> set (glob_scratch w) \<longleftrightarrow> is_scratch_path p \<and> (p \<in> fst ` set (files w) \<or> p \<in> set (dirs w))"
  by (auto simp: glob_scratch_def)

lemma swept_in_files: "swept c w p \<Longrightarrow> p \<in> fst ` set (files w)"
  by (auto simp: swept_def dest: map_of_SomeD intro: rev_image_eqI)

lemma cleanup_files:
  "files (cleanup_temporary_files c w)
     = filter (\<lambda>kv. \<not> (is_scratch_path (fst kv) \<and> swept c w (fst kv))) (files w)"
  unfolding cleanup_temporary_files_def cleanup_loop_files
  by (intro filter_cong) (auto simp: glob_scratch_mem)

lemma map_of_filter_key:
  "map_of (filter (\<lambda>kv. P (fst kv)) al) k = (if P k then map_of al k else None)"
  by (induction al) auto

lemma cleanup_map_of:
  "map_of (files (cleanup_temporary_files c w)) p
     = (if is_scratch_path p \<and> swept c w p then None else map_of (files w) p)"
proof -
  have "map_of (filter (\<lambda>kv. (\<lambda>k. \<not> (is_scratch_path k \<and> swept c w k)) (fst kv)) (files w)) p
      = (if \<not> (is_scratch_path p \<and> swept c w p) then map_of (files w) p else None)"
    by (rule map_of_filter_key)
  then show ?thesis unfolding cleanup_files by auto
qed

lemma cleanup_rest:
  "environ (cleanup_temporary_files c w) = environ w"
  "dirs (cleanup_temporary_files c w) = dirs w"
  "stdout (cleanup_temporary_files c w) = stdout w"
  unfolding cleanup_temporary_files_def using cleanup_loop_rest by blast+

lemma cleanup_idem: "cleanup_temporary_files c (cleanup_temporary_files c w) = cleanup_temporary_files c w"
proof -
  let ?w = "cleanup_temporary_files c w"
  have "\<not> (is_scratch_path p \<and> swept c ?w p)" for p
    by (auto simp: swept_def cleanup_map_of split: if_splits)
  then have "files (cleanup_temporary_files c ?w) = files ?w"
    by (simp add: cleanup_files[of c ?w])
  then show ?thesis
    by (intro world.equality) (simp_all add: cleanup_rest)
qed

text \<open>
  Claim C9. The sweep changes nothing but the files, and every file it leaves is as it
  was. It removes a file only if the file matches the scratch pattern and is more than an
  hour old, and it does remove such a file when its modification time can be read and
  the file can be removed. A file 30 minutes old survives, a scratch file 90 minutes old
  is removed, and a second sweep at the same time changes nothing.
\<close>

theorem cleanup_sweep_one_hour:
  "(map_of (files (cleanup_temporary_files c w)) p = Some f \<longrightarrow> map_of (files w) p = Some f)
   \<and> (map_of (files w) p = Some f \<and> map_of (files (cleanup_temporary_files c w)) p = None
        \<longrightarrow> is_scratch_path p \<and> now_ms c - mtime f > 3600000)
   \<and> (map_of (files w) p = Some f \<and> is_scratch_path p \<and> now_ms c - mtime f > 3600000
        \<and> \<not> faulty c (Getmtime p) \<and> \<not> faulty c (Remove p)
        \<longrightarrow> map_of (files (cleanup_temporary_files c w)) p = None)
   \<and> (map_of (files w) p = Some f \<and> mtime f = now_ms c - 30 * 60 * 1000
        \<longrightarrow> map_of (files (cleanup_temporary_files c w)) p = Some f)
   \<and> (map_of (files w) p = Some f \<and> is_scratch_path p \<and> mtime f = now_ms c - 90 * 60 * 1000
        \<and> \<not> faulty c (Getmtime p) \<and> \<not> faulty c (Remove p)
        \<longrightarrow> map_of (files (cleanup_temporary_files c w)) p = None)
   \<and> cleanup_temporary_files c (cleanup_temporary_files c w) = cleanup_temporary_files c w
   \<and> environ (cleanup_temporary_files c w) = environ w
   \<and> dirs (cleanup_temporary_files c w) = dirs w
   \<and> stdout (cleanup_temporary_files c w) = stdout w"
  by (auto simp: cleanup_map_of cleanup_idem cleanup_rest swept_def split: if_splits)

theorem cleanup_sweep_one_hour_witness:
  "map_of (files (cleanup_temporary_files (quiet_ctx None 1700000000000) two_scratch_files))
       ''/tmp/evolution-old.json'' = None
   \<and> map_of (files (cleanup_temporary_files (quiet_ctx None 1700000000000) two_scratch_files))
       ''/tmp/evolution-new.json'' = Some \<lparr>content = [], mtime = 1699998200000\<rparr>
   \<and> files (cleanup_temporary_files (quiet_ctx None 1700000000000) two_scratch_files)
       = [(''/tmp/evolution-new.json'', \<lparr>content = [], mtime = 1699998200000\<rparr>)]"
proof -
  let ?c = "quiet_ctx None 1700000000000"
  let ?old = "\<lparr>content = [], mtime = 1699994600000\<rparr>"
  let ?new = "\<lparr>content = [], mtime = 1699998200000\<rparr>"
  have old: "map_of (files two_scratch_files) ''/tmp/evolution-old.json'' = Some ?old"
    and new: "map_of (files two_scratch_files) ''/tmp/evolution-new.json'' = Some ?new"
    by (simp_all add: two_scratch_files_def empty_world_def)
  have pat: "is_scratch_path ''/tmp/evolution-old.json''" by code_simp
  have age: "mtime ?old = now_ms ?c - 90 * 60 * 1000" "mtime ?new = now_ms ?c - 30 * 60 * 1000"
    by (simp_all add: quiet_ctx_def)
  have ok: "\<not> faulty ?c (Getmtime ''/tmp/evolution-old.json'')"
           "\<not> faulty ?c (Remove ''/tmp/evolution-old.json'')"
    by (simp_all add: quiet_ctx_def)
  have a: "map_of (files (cleanup_temporary_files ?c two_scratch_files)) ''/tmp/evolution-old.json'' = None"
    using cleanup_sweep_one_hour[of ?c two_scratch_files "''/tmp/evolution-old.json''" ?old]
      old pat age(1) ok by blast
  have b: "map_of (files (cleanup_temporary_files ?c two_scratch_files)) ''/tmp/evolution-new.json'' = Some ?new"
    using cleanup_sweep_one_hour[of ?c two_scratch_files "''/tmp/evolution-new.json''" ?new]
      new age(2) by blast
  have c: "files (cleanup_temporary_files ?c two_scratch_files) = [(''/tmp/evolution-new.json'', ?new)]"
    by code_simp
  show ?thesis using a b c by (intro conjI)
qed

section \<open>What the operations leave alone\<close>

lemma raise_or_Ok: "raise_or w m f = Ok a w' \<longleftrightarrow> (\<exists>x. m = Inr x \<and> f x = Ok a w')"
  by (cases m) (auto simp: raise_or_def)

lemma raise_or_Fail:
  "raise_or w m f = Fail e w' \<longleftrightarrow> (m = Inl e \<and> w' = w) \<or> (\<exists>x. m = Inr x \<and> f x = Fail e w')"
  by (cases m) (auto simp: raise_or_def)

lemma py_get_is_object: "py_get d k dflt = Inr v \<Longrightarrow> is_object d"
  by (auto simp: py_get_def is_object_def split: json.splits)

lemma io_stdout:
  "os_makedirs c p w = Inr w' \<Longrightarrow> stdout w' = stdout w"
  "append_line c p l w = Inr w' \<Longrightarrow> stdout w' = stdout w"
  "write_file c p ls w = Inr w' \<Longrightarrow> stdout w' = stdout w"
  "shutil_copy2 c src dst w = Inr w' \<Longrightarrow> stdout w' = stdout w"
  "os_remove c p w = Inr w' \<Longrightarrow> stdout w' = stdout w"
  by (auto simp: os_makedirs_def append_line_def write_file_def shutil_copy2_def os_remove_def
        Let_def split: if_splits option.splits)

lemma io_environ:
  "os_makedirs c p w = Inr w' \<Longrightarrow> environ w' = environ w"
  "append_line c p l w = Inr w' \<Longrightarrow> environ w' = environ w"
  "write_file c p ls w = Inr w' \<Longrightarrow> environ w' = environ w"
  "shutil_copy2 c src dst w = Inr w' \<Longrightarrow> environ w' = environ w"
  "os_remove c p w = Inr w' \<Longrightarrow> environ w' = environ w"
  by (auto simp: os_makedirs_def append_line_def write_file_def shutil_copy2_def os_remove_def
        Let_def split: if_splits option.splits)

lemma write_telemetry_record_frame:
  "stdout (world_of (write_telemetry_record c r w)) = stdout w
   \<and> environ (world_of (write_telemetry_record c r w)) = environ w"
  by (auto simp: write_telemetry_record_def Let_def raise_or_def split: sum.split;
      metis io_stdout(1,2) io_environ(1,2))

lemma update_session_statistics_frame:
  "stdout (update_session_statistics c s w) = stdout w
   \<and> environ (update_session_statistics c s w) = environ w"
  by (auto simp: update_session_statistics_def Let_def bindE_def split: sum.split json.split;
      metis io_stdout(3) io_environ(3))

lemma print_json_stdout: "stdout (print_json v w) = stdout w @ [v]"
  by (simp add: print_json_def)

lemma enhancer_try_stdout_case:
  "(case telemetry_enhancer_try c w of
      Ok u w' \<Rightarrow> \<exists>v. stdin c = Some v \<and> is_object v \<and> stdout w' = stdout w @ [v]
    | Fail e w' \<Rightarrow> stdout w' = stdout w)"
proof (cases "stdin c")
  case None
  then show ?thesis by (simp add: telemetry_enhancer_try_def)
next
  case (Some v)
  have wtr: "stdout (world_of (write_telemetry_record c r w)) = stdout w" for r
    using write_telemetry_record_frame by blast
  show ?thesis
    unfolding telemetry_enhancer_try_def Some
    by (auto simp: raise_or_def print_json_stdout split: sum.split result.split;
        (metis wtr world_of.simps py_get_is_object)?)
qed

lemma collector_try_stdout_case:
  "(case telemetry_collector_try c w of
      Ok u w' \<Rightarrow> \<exists>v. stdin c = Some v \<and> is_object v \<and> stdout w' = stdout w @ [v]
    | Fail e w' \<Rightarrow> stdout w' = stdout w)"
proof (cases "stdin c")
  case None
  then show ?thesis by (simp add: telemetry_collector_try_def)
next
  case (Some v)
  have wtr: "stdout (world_of (write_telemetry_record c r w)) = stdout w" for r
    using write_telemetry_record_frame by blast
  have uss: "stdout (update_session_statistics c s w1) = stdout w1" for s w1
    using update_session_statistics_frame by blast
  show ?thesis
    unfolding telemetry_collector_try_def Some
    by (auto simp: raise_or_def print_json_stdout Let_def uss
          split: sum.split result.split option.split;
        (metis wtr world_of.simps py_get_is_object)?)
qed

lemma setup_evolution_session_stdout: "stdout (snd (setup_evolution_session c w)) = stdout w"
  by (simp add: setup_evolution_session_def Let_def)

lemma finalize_frame:
  "stdout (finalize_telemetry_session c s w) = stdout w
   \<and> environ (finalize_telemetry_session c s w) = environ w"
  by (auto simp: finalize_telemetry_session_def Let_def split: sum.split;
      metis io_stdout(2) io_environ(2))

lemma copy_matching_frame:
  "stdout (world_of (copy_matching c s t d names acc w)) = stdout w
   \<and> environ (world_of (copy_matching c s t d names acc w)) = environ w"
proof (induction names arbitrary: acc w)
  case Nil
  then show ?case by simp
next
  case (Cons n ns)
  show ?case
  proof (cases "sublist s n")
    case False
    then show ?thesis using Cons.IH by simp
  next
    case True
    show ?thesis
    proof (cases "shutil_copy2 c (path_join t n) (path_join d n) w")
      case (Inl e)
      then show ?thesis using True by (simp add: raise_or_def)
    next
      case (Inr w1)
      then show ?thesis
        using True Cons.IH[of "acc @ [n]" w1] io_stdout(4)[OF Inr] io_environ(4)[OF Inr]
        by (simp add: raise_or_def)
    qed
  qed
qed

lemma bindE_get_is_object: "bindE (py_get v k d) f = Inr x \<Longrightarrow> is_object v"
  by (auto simp: bindE_Inr dest: py_get_is_object)

lemma interceptor_try_cases:
  obtains
    (unparsed) "stdin c = None" "task_interceptor_try c w = Fail JSONDecodeError w"
  | (raised) v e where "stdin c = Some v" "\<not> starts_session v"
      "task_interceptor_try c w = Fail e w"
  | (passed) v where "stdin c = Some v" "is_object v" "\<not> starts_session v"
      "task_interceptor_try c w = Ok () (print_json v w)"
  | (started) v p w2 where "stdin c = Some v" "is_object v" "starts_session v"
      "write_file c (scratch_path (fst (setup_evolution_session c w)))
         [JsonLine (session_metadata c (fst (setup_evolution_session c w)) p)]
         (snd (setup_evolution_session c w)) = Inr w2"
      "task_interceptor_try c w = Ok () (print_json v w2)"
  | (start_failed) v p e where "stdin c = Some v" "starts_session v"
      "write_file c (scratch_path (fst (setup_evolution_session c w)))
         [JsonLine (session_metadata c (fst (setup_evolution_session c w)) p)]
         (snd (setup_evolution_session c w)) = Inl e"
      "task_interceptor_try c w = Fail e (snd (setup_evolution_session c w))"
proof (cases "stdin c")
  case None
  then show ?thesis using unparsed by (simp add: task_interceptor_try_def)
next
  case (Some v)
  let ?n = "bindE (py_get v ''tool'' (JObj [])) (\<lambda>t. py_get t ''name'' (JStr []))"
  let ?a = "bindE (py_get v ''tool'' (JObj [])) (\<lambda>t. py_get t ''arguments'' (JObj []))"
  show ?thesis
  proof (cases ?n)
    case (Inl e)
    then show ?thesis using raised[of v e] Some
      by (simp add: task_interceptor_try_def starts_session_def raise_or_def)
  next
    case n: (Inr tool_name)
    then have obj: "is_object v" by (rule bindE_get_is_object)
    show ?thesis
    proof (cases ?a)
      case (Inl e)
      then show ?thesis using raised[of v e] Some n
        by (simp add: task_interceptor_try_def starts_session_def raise_or_def)
    next
      case a: (Inr parameters)
      show ?thesis
      proof (cases "tool_name = JStr ''Task''")
        case False
        then show ?thesis using passed[of v] Some n a obj
          by (simp add: task_interceptor_try_def starts_session_def raise_or_def)
      next
        case task: True
        show ?thesis
        proof (cases "py_get parameters ''prompt'' (JStr [])")
          case (Inl e)
          then show ?thesis using raised[of v e] Some n a task
            by (simp add: task_interceptor_try_def starts_session_def raise_or_def)
        next
          case pr: (Inr prompt)
          show ?thesis
          proof (cases "as_str prompt")
            case (Inl e)
            then have "\<not> starts_session v" using n a task pr
              by (auto simp: starts_session_def as_str_def split: json.splits)
            then show ?thesis using raised[of v e] Some n a task pr Inl
              by (simp add: task_interceptor_try_def raise_or_def)
          next
            case s: (Inr p)
            then have pj: "prompt = JStr p" by (auto simp: as_str_def split: json.splits)
            show ?thesis
            proof (cases "is_evolution_prompt p")
              case False
              then have "\<not> starts_session v" using n a task pr pj
                by (simp add: starts_session_def)
              then show ?thesis using passed[of v] Some n a task pr s obj False
                by (simp add: task_interceptor_try_def raise_or_def)
            next
              case True
              then have st: "starts_session v" using n a task pr pj
                by (simp add: starts_session_def)
              obtain sid w1 where su: "setup_evolution_session c w = (sid, w1)"
                by (cases "setup_evolution_session c w")
              have body: "task_interceptor_try c w =
                  raise_or w1 (write_file c (scratch_path sid) [JsonLine (session_metadata c sid p)] w1)
                    (\<lambda>w2. Ok () (print_json v w2))"
                using Some n a task pr s True su
                by (simp add: task_interceptor_try_def raise_or_def Let_def scratch_path_def
                      session_metadata_def)
              show ?thesis
              proof (cases "write_file c (scratch_path sid) [JsonLine (session_metadata c sid p)] w1")
                case (Inl e)
                then show ?thesis using start_failed[of v p e] Some st su body
                  by (simp add: raise_or_def)
              next
                case (Inr w2)
                then show ?thesis using started[of v p w2] Some st su body obj
                  by (simp add: raise_or_def)
              qed
            qed
          qed
        qed
      qed
    qed
  qed
qed

lemma keeps_refl: "keeps w w"
  by (simp add: keeps_def)

lemma keeps_trans: "keeps w w1 \<Longrightarrow> keeps w1 w2 \<Longrightarrow> keeps w w2"
  by (simp add: keeps_def)

lemma io_keeps:
  "os_makedirs c p w = Inr w' \<Longrightarrow> keeps w w'"
  "append_line c p l w = Inr w' \<Longrightarrow> keeps w w'"
  "write_file c p ls w = Inr w' \<Longrightarrow> keeps w w'"
  "shutil_copy2 c src dst w = Inr w' \<Longrightarrow> keeps w w'"
  "os_remove c p w = Inr w' \<Longrightarrow> keeps w w'"
  by (simp_all add: keeps_def io_stdout io_environ)

lemma raise_or_keeps:
  assumes "\<And>x. m = Inr x \<Longrightarrow> keeps w (world_of (f x))"
  shows "keeps w (world_of (raise_or w m f))"
  using assms by (cases m) (simp_all add: raise_or_def keeps_refl)

lemma copy_matching_keeps: "keeps w (world_of (copy_matching c s t d names acc w))"
  using copy_matching_frame[of c s t d names acc w] by (simp add: keeps_def)

lemma archive_try_keeps: "keeps w (world_of (archive_try c s d w))"
proof -
  let ?r1 = "(if os_path_exists w (telemetry_dir c)
            then raise_or w (os_listdir c (telemetry_dir c) w) (\<lambda>names.
                   copy_matching c s (telemetry_dir c) d names [] w)
            else Ok [] w)"
  have f1: "keeps w (world_of ?r1)"
    by (simp add: keeps_refl raise_or_keeps copy_matching_keeps)
  show ?thesis
  proof (cases ?r1)
    case (Fail e w1)
    then show ?thesis using f1 by (simp add: archive_try_def)
  next
    case (Ok archived w1)
    then have w1: "keeps w w1" using f1 by simp
    let ?r2 = "(if os_path_exists w1 (scratch_path s)
                 then raise_or w1 (shutil_copy2 c (scratch_path s)
                                     (path_join d ''session-metadata.json'') w1) (\<lambda>w2.
                      raise_or w2 (os_remove c (scratch_path s) w2) (\<lambda>w3.
                        Ok (archived @ [''session-metadata.json'']) w3))
                 else Ok archived w1)"
    have f2: "keeps w1 (world_of ?r2)"
    proof (cases "os_path_exists w1 (scratch_path s)")
      case False
      then show ?thesis by (simp add: keeps_refl)
    next
      case True
      have "keeps w1 (world_of (raise_or w1 (shutil_copy2 c (scratch_path s)
                                     (path_join d ''session-metadata.json'') w1) (\<lambda>w2.
                      raise_or w2 (os_remove c (scratch_path s) w2) (\<lambda>w3.
                        Ok (archived @ [''session-metadata.json'']) w3))))"
      proof (rule raise_or_keeps)
        fix w2 assume c2: "shutil_copy2 c (scratch_path s) (path_join d ''session-metadata.json'') w1 = Inr w2"
        have "keeps w2 (world_of (raise_or w2 (os_remove c (scratch_path s) w2) (\<lambda>w3.
                        Ok (archived @ [''session-metadata.json'']) w3)))"
          by (rule raise_or_keeps) (simp add: io_keeps(5))
        then show "keeps w1 (world_of (raise_or w2 (os_remove c (scratch_path s) w2) (\<lambda>w3.
                        Ok (archived @ [''session-metadata.json'']) w3)))"
          using io_keeps(4)[OF c2] keeps_trans by blast
      qed
      then show ?thesis using True by simp
    qed
    show ?thesis
    proof (cases ?r2)
      case (Fail e w4)
      then show ?thesis using Ok f2 w1 keeps_trans by (simp add: archive_try_def)
    next
      case r2: (Ok files4 w4)
      then have w4: "keeps w w4" using f2 w1 keeps_trans by fastforce
      have "keeps w4 (world_of (raise_or w4 (write_file c (path_join d ''archive-summary.json'') ls w4) (\<lambda>w5. Ok () w5)))" for ls
        by (rule raise_or_keeps) (simp add: io_keeps(3))
      then show ?thesis using Ok r2 w4 keeps_trans
        by (simp add: archive_try_def Let_def)
    qed
  qed
qed

lemma archive_evolution_data_keeps: "keeps w (world_of (archive_evolution_data c s w))"
proof (cases "s = []")
  case True
  then show ?thesis by (simp add: archive_evolution_data_def keeps_refl)
next
  case False
  let ?ad = "home c @ ''/.claude/evolution-archive''"
  let ?sa = "path_join ?ad (now_stamp c @ ''_'' @ s)"
  have "keeps w (world_of (raise_or w (os_makedirs c ?ad w) (\<lambda>w1.
          raise_or w1 (os_makedirs c ?sa w1) (\<lambda>w2.
            case archive_try c s ?sa w2 of
              Ok _ w3 \<Rightarrow> Ok (Some ?sa) w3
            | Fail e w3 \<Rightarrow> Ok None w3))))"
  proof (rule raise_or_keeps)
    fix w1 assume m1: "os_makedirs c ?ad w = Inr w1"
    have "keeps w1 (world_of (raise_or w1 (os_makedirs c ?sa w1) (\<lambda>w2.
            case archive_try c s ?sa w2 of
              Ok _ w3 \<Rightarrow> Ok (Some ?sa) w3
            | Fail e w3 \<Rightarrow> Ok None w3)))"
    proof (rule raise_or_keeps)
      fix w2 assume m2: "os_makedirs c ?sa w1 = Inr w2"
      have "keeps w2 (world_of (archive_try c s ?sa w2))" by (rule archive_try_keeps)
      then have "keeps w2 (world_of (case archive_try c s ?sa w2 of
              Ok _ w3 \<Rightarrow> Ok (Some ?sa) w3
            | Fail e w3 \<Rightarrow> Ok None w3))"
        by (cases "archive_try c s ?sa w2") simp_all
      then show "keeps w1 (world_of (case archive_try c s ?sa w2 of
              Ok _ w3 \<Rightarrow> Ok (Some ?sa) w3
            | Fail e w3 \<Rightarrow> Ok None w3))"
        using io_keeps(1)[OF m2] keeps_trans by blast
    qed
    then show "keeps w (world_of (raise_or w1 (os_makedirs c ?sa w1) (\<lambda>w2.
            case archive_try c s ?sa w2 of
              Ok _ w3 \<Rightarrow> Ok (Some ?sa) w3
            | Fail e w3 \<Rightarrow> Ok None w3)))"
      using io_keeps(1)[OF m1] keeps_trans by blast
  qed
  then show ?thesis using False by (simp only: archive_evolution_data_def Let_def if_False)
qed

lemma finalize_keeps: "keeps w (finalize_telemetry_session c s w)"
  using finalize_frame[of c s w] by (simp add: keeps_def)

lemma generate_resume_instructions_keeps: "keeps w (generate_resume_instructions c s a w)"
  by (auto simp: generate_resume_instructions_def Let_def keeps_refl io_keeps(3)
        split: option.split sum.split)

lemma cleanup_keeps: "keeps w (cleanup_temporary_files c w)"
  by (simp add: keeps_def cleanup_rest)

lemma checkpoint_try_stdout_case:
  "(case checkpoint_manager_try c w of
      Ok u w' \<Rightarrow> stdout w' = stdout w @ [case stdin c of None \<Rightarrow> JObj [] | Some v \<Rightarrow> v]
    | Fail e w' \<Rightarrow> stdout w' = stdout w)"
proof (cases "get_session_info w")
  case (Inl e)
  then show ?thesis by (simp add: checkpoint_manager_try_def raise_or_def)
next
  case (Inr si)
  show ?thesis
  proof (cases "si_session_id si")
    case None
    then show ?thesis using Inr
      by (simp add: checkpoint_manager_try_def raise_or_def print_json_stdout)
  next
    case (Some sid)
    show ?thesis
    proof (cases "sid \<noteq> [] \<and> env_truthy w ''EVOLUTION_SESSION_ACTIVE''")
      case False
      then show ?thesis using Inr Some
        by (auto simp: checkpoint_manager_try_def raise_or_def print_json_stdout)
    next
      case True
      let ?w1 = "finalize_telemetry_session c sid w"
      have a: "keeps w (world_of (archive_evolution_data c sid ?w1))"
        using archive_evolution_data_keeps[of ?w1 c sid] finalize_keeps[of w c sid] keeps_trans
        by blast
      show ?thesis
      proof (cases "archive_evolution_data c sid ?w1")
        case (Fail e w2)
        then show ?thesis using Inr Some True a
          by (simp add: checkpoint_manager_try_def raise_or_def keeps_def)
      next
        case (Ok ap w2)
        have "keeps w (cleanup_temporary_files c (generate_resume_instructions c sid ap w2))"
          using a Ok generate_resume_instructions_keeps[of w2 c sid ap]
            cleanup_keeps[of "generate_resume_instructions c sid ap w2" c] keeps_trans
          by (metis world_of.simps(1))
        then show ?thesis using Inr Some True Ok
          by (simp add: checkpoint_manager_try_def raise_or_def print_json_stdout Let_def
                clear_evolution_environment_def keeps_def)
      qed
    qed
  qed
qed

section \<open>Every entry point prints once\<close>

lemma substitute_is_object: "is_object (substitute ep)"
  by (cases ep) (simp_all add: substitute_def is_object_def)

lemma enhancer_main_stdout:
  "\<exists>v. stdout (telemetry_enhancer_main c w) = stdout w @ [v]
     \<and> (stdin c = Some v \<or> v = substitute PreCapture) \<and> is_object v"
  using enhancer_try_stdout_case[of c w] substitute_is_object[of PreCapture]
  by (cases "telemetry_enhancer_try c w")
     (auto simp: telemetry_enhancer_main_def print_json_stdout substitute_def)

lemma collector_main_stdout:
  "\<exists>v. stdout (telemetry_collector_main c w) = stdout w @ [v]
     \<and> (stdin c = Some v \<or> v = substitute PostCapture) \<and> is_object v"
  using collector_try_stdout_case[of c w] substitute_is_object[of PostCapture]
  by (cases "telemetry_collector_try c w")
     (auto simp: telemetry_collector_main_def print_json_stdout substitute_def)

lemma interceptor_main_stdout:
  "\<exists>v. stdout (task_interceptor_main c w) = stdout w @ [v]
     \<and> (stdin c = Some v \<or> v = substitute ClassifyAndStart) \<and> is_object v"
proof (cases rule: interceptor_try_cases[of c w])
  case unparsed
  then show ?thesis using substitute_is_object[of ClassifyAndStart]
    by (simp add: task_interceptor_main_def print_json_stdout substitute_def)
next
  case (raised v e)
  then show ?thesis using substitute_is_object[of ClassifyAndStart]
    by (simp add: task_interceptor_main_def print_json_stdout substitute_def)
next
  case (passed v)
  then show ?thesis by (simp add: task_interceptor_main_def print_json_stdout)
next
  case (started v p w2)
  then show ?thesis
    using io_stdout(3)[OF started(4)] setup_evolution_session_stdout[of c w]
    by (simp add: task_interceptor_main_def print_json_stdout)
next
  case (start_failed v p e)
  then show ?thesis
    using substitute_is_object[of ClassifyAndStart] setup_evolution_session_stdout[of c w]
    by (simp add: task_interceptor_main_def print_json_stdout substitute_def)
qed

lemma checkpoint_main_stdout:
  "\<exists>v. stdout (checkpoint_manager_main c w) = stdout w @ [v]
     \<and> (stdin c = Some v \<or> v = substitute Checkpoint)"
  using checkpoint_try_stdout_case[where c=c and w=w]
  by (cases "checkpoint_manager_try c w")
     (auto simp: checkpoint_manager_main_def print_json_stdout substitute_def split: option.splits)

lemma substitute_valid: "valid_json (substitute ep)"
  by (cases ep) (simp_all add: substitute_def)

text \<open>
  Claim C2, as amended. Whatever standard input holds and whichever operations of the
  file system fail, every entry point returns and has printed exactly one value: the
  value \<^verbatim>\<open>json.loads\<close> returned for the input, or the script's substitute object.
  \<^item> The value is a JSON object for the pre-capture, post-capture and classify-and-start
    entry points, and for the checkpoint entry point when its input is unparseable or is
    an object.
  \<^item> What is printed is JSON text when the input is unparseable or parses to a value
    that holds no non-finite number.
\<close>

theorem entry_point_prints_one_value:
  "\<exists>v. stdout (run_entry ep c w) = stdout w @ [v]
     \<and> (stdin c = Some v \<or> v = substitute ep)
     \<and> (ep \<noteq> Checkpoint \<or> stdin c = None \<or> (\<exists>x. stdin c = Some x \<and> is_object x)
          \<longrightarrow> is_object v)
     \<and> (stdin c = None \<or> (\<exists>x. stdin c = Some x \<and> valid_json x) \<longrightarrow> valid_json v)"
proof -
  have "\<exists>v. stdout (run_entry ep c w) = stdout w @ [v]
     \<and> (stdin c = Some v \<or> v = substitute ep)
     \<and> (ep \<noteq> Checkpoint \<or> stdin c = None \<or> (\<exists>x. stdin c = Some x \<and> is_object x)
          \<longrightarrow> is_object v)"
  proof (cases ep)
    case PreCapture
    then show ?thesis using enhancer_main_stdout[of c w] by (auto simp: run_entry_def)
  next
    case PostCapture
    then show ?thesis using collector_main_stdout[of c w] by (auto simp: run_entry_def)
  next
    case ClassifyAndStart
    then show ?thesis using interceptor_main_stdout[of c w] by (auto simp: run_entry_def)
  next
    case Checkpoint
    then show ?thesis
      using checkpoint_main_stdout[of c w] substitute_is_object[of Checkpoint]
      by (auto simp: run_entry_def)
  qed
  then obtain v where v: "stdout (run_entry ep c w) = stdout w @ [v]"
      "stdin c = Some v \<or> v = substitute ep"
      "ep \<noteq> Checkpoint \<or> stdin c = None \<or> (\<exists>x. stdin c = Some x \<and> is_object x)
          \<longrightarrow> is_object v"
    by blast
  have "stdin c = None \<or> (\<exists>x. stdin c = Some x \<and> valid_json x) \<longrightarrow> valid_json v"
    using v(2) substitute_valid[of ep] by auto
  then show ?thesis using v by blast
qed

theorem entry_point_prints_one_value_witness:
  "(\<exists>v. stdout (run_entry PreCapture (quiet_ctx None 0) empty_world) = [v]
         \<and> is_object v \<and> valid_json v)
   \<and> stdout (run_entry Checkpoint (quiet_ctx None 0) empty_world) = [JObj []]"
proof -
  have s: "stdin (quiet_ctx None 0) = None" "stdout empty_world = []"
    by (simp_all add: quiet_ctx_def empty_world_def)
  have a: "\<exists>v. stdout (run_entry PreCapture (quiet_ctx None 0) empty_world) = [v]
         \<and> is_object v \<and> valid_json v"
    using entry_point_prints_one_value[of PreCapture "quiet_ctx None 0" empty_world] s by auto
  have b: "stdout (run_entry Checkpoint (quiet_ctx None 0) empty_world) = [JObj []]"
    using entry_point_prints_one_value[of Checkpoint "quiet_ctx None 0" empty_world] s
    by (auto simp: substitute_def)
  show ?thesis using a b by (intro conjI)
qed

text \<open>
  Claim C2 as stated fails twice. The checkpoint entry point prints its input back as it
  is, so for the input \<^verbatim>\<open>[]\<close> it prints an array, not an object. And every entry point
  prints back a non-finite number that \<^verbatim>\<open>json.loads\<close> accepted: for the JSON text
  \<^verbatim>\<open>{"x": 1e999}\<close> the pre-capture entry point prints \<^verbatim>\<open>{"x": Infinity}\<close>, which is
  not JSON.
\<close>

theorem checkpoint_prints_array_counterexample:
  "stdout (run_entry Checkpoint (quiet_ctx (Some (JArr [])) 0) empty_world) = [JArr []]
   \<and> \<not> is_object (JArr [])
   \<and> stdout (run_entry PreCapture (quiet_ctx (Some overflow_envelope) 0) empty_world)
       = [overflow_envelope]
   \<and> \<not> valid_json overflow_envelope"
  by code_simp

section \<open>Invocations without a session\<close>

lemma tool_name_ofD:
  "tool_name_of v = Some n
     \<Longrightarrow> \<exists>ti. py_get v ''tool'' (JObj []) = Inr ti \<and> py_get ti ''name'' (JStr []) = Inr (JStr n)"
  by (auto simp: tool_name_of_def bindE_Inr split: sum.splits json.splits)

lemma py_get_total: "is_object v \<Longrightarrow> \<exists>x. py_get v k d = Inr x"
  by (auto simp: py_get_def is_object_def split: json.splits)

lemma enhancer_pass:
  assumes "stdin c = Some v" and "tool_name_of v = Some n"
    and "\<not> (prefix ''mcp__indesign__'' n \<and> env_truthy w ''EVOLUTION_SESSION_ID'')"
  shows "telemetry_enhancer_main c w = print_json v w"
proof -
  from tool_name_ofD[OF assms(2)] obtain ti where
    t: "py_get v ''tool'' (JObj []) = Inr ti" and n: "py_get ti ''name'' (JStr []) = Inr (JStr n)"
    by blast
  show ?thesis using assms(1,3) t n
    by (auto simp: telemetry_enhancer_main_def telemetry_enhancer_try_def raise_or_def as_str_def)
qed

lemma collector_pass:
  assumes "stdin c = Some v" and "tool_name_of v = Some n"
    and "\<not> (prefix ''mcp__indesign__'' n \<and> env_truthy w ''EVOLUTION_SESSION_ID'')"
  shows "telemetry_collector_main c w = print_json v w"
proof -
  from tool_name_ofD[OF assms(2)] obtain ti where
    t: "py_get v ''tool'' (JObj []) = Inr ti" and n: "py_get ti ''name'' (JStr []) = Inr (JStr n)"
    by blast
  from t have "is_object v" by (rule py_get_is_object)
  then obtain r tm where "py_get v ''result'' (JObj []) = Inr r" "py_get v ''timing'' (JObj []) = Inr tm"
    using py_get_total by blast
  then show ?thesis using assms(1,3) t n
    by (auto simp: telemetry_collector_main_def telemetry_collector_try_def raise_or_def as_str_def)
qed

lemma checkpoint_pass:
  assumes "get_session_info w = Inr si"
    and "\<not> (sid_truthy (si_session_id si) \<and> env_truthy w ''EVOLUTION_SESSION_ACTIVE'')"
  shows "checkpoint_manager_main c w = print_json (case stdin c of None \<Rightarrow> JObj [] | Some v \<Rightarrow> v) w"
  using assms
  by (auto simp: checkpoint_manager_main_def checkpoint_manager_try_def raise_or_def sid_truthy_def
        split: option.splits)

lemma no_session_id:
  assumes "get_session_info w = Inr si"
    and "\<not> env_truthy w ''EVOLUTION_SESSION_ID''" and "\<not> env_truthy w ''TELEMETRY_SESSION_ID''"
  shows "\<not> sid_truthy (si_session_id si)"
  using assms
  by (auto simp: get_session_info_def bindE_Inr Let_def env_truthy_def sid_truthy_def
        split: option.splits if_splits)

lemma setup_evolution_session_world:
  "snd (setup_evolution_session c w)
     = w\<lparr>environ := (environ w)(''EVOLUTION_SESSION_ID'' \<mapsto> fst (setup_evolution_session c w),
                       ''TELEMETRY_ENABLED'' \<mapsto> ''true'',
                       ''TELEMETRY_SESSION_ID'' \<mapsto> fst (setup_evolution_session c w))\<rparr>"
  by (simp add: setup_evolution_session_def Let_def)

lemma setup_evolution_session_rest:
  "files (snd (setup_evolution_session c w)) = files w"
  "dirs (snd (setup_evolution_session c w)) = dirs w"
  "is_dir (snd (setup_evolution_session c w)) p = is_dir w p"
  by (simp_all add: setup_evolution_session_def Let_def is_dir_def)

lemma print_json_rest:
  "files (print_json v w) = files w" "dirs (print_json v w) = dirs w"
  "environ (print_json v w) = environ w"
  by (simp_all add: print_json_def)

lemma tool_name_of_None:
  assumes "tool_name_of v = None"
  shows "(\<exists>e. py_get v ''tool'' (JObj []) = Inl e)
       \<or> (\<exists>ti e. py_get v ''tool'' (JObj []) = Inr ti \<and> py_get ti ''name'' (JStr []) = Inl e)
       \<or> (\<exists>ti nm e. py_get v ''tool'' (JObj []) = Inr ti \<and> py_get ti ''name'' (JStr []) = Inr nm
              \<and> as_str nm = Inl e)"
proof (cases "py_get v ''tool'' (JObj [])")
  case (Inl e)
  then show ?thesis by blast
next
  case t: (Inr ti)
  show ?thesis
  proof (cases "py_get ti ''name'' (JStr [])")
    case (Inl e)
    then show ?thesis using t by blast
  next
    case (Inr nm)
    then have "\<exists>e. as_str nm = Inl e"
      using assms t by (auto simp: tool_name_of_def bindE_def as_str_def split: json.splits)
    then show ?thesis using t Inr by blast
  qed
qed

lemma enhancer_fallback:
  assumes "stdin c = Some v" and "tool_name_of v = None"
  shows "telemetry_enhancer_main c w = print_json (substitute PreCapture) w"
  using tool_name_of_None[OF assms(2)] assms(1)
  by (auto simp: telemetry_enhancer_main_def telemetry_enhancer_try_def raise_or_def substitute_def)

lemma collector_fallback:
  assumes "stdin c = Some v" and "tool_name_of v = None"
  shows "telemetry_collector_main c w = print_json (substitute PostCapture) w"
proof (cases "py_get v ''tool'' (JObj [])")
  case (Inl e)
  then show ?thesis using assms(1)
    by (simp add: telemetry_collector_main_def telemetry_collector_try_def raise_or_def substitute_def)
next
  case t: (Inr ti)
  then have "is_object v" by (rule py_get_is_object)
  then obtain r tm where g: "py_get v ''result'' (JObj []) = Inr r" "py_get v ''timing'' (JObj []) = Inr tm"
    using py_get_total by blast
  show ?thesis
    using tool_name_of_None[OF assms(2)] assms(1) t g
    by (auto simp: telemetry_collector_main_def telemetry_collector_try_def raise_or_def
          substitute_def)
qed

lemma checkpoint_generation_fails:
  assumes "\<not> generation_parses w"
  shows "checkpoint_manager_main c w = print_json (substitute Checkpoint) w"
proof -
  from assms obtain e where "get_session_info w = Inl e"
    by (auto simp: generation_parses_def split: sum.splits)
  then show ?thesis
    by (simp add: checkpoint_manager_main_def checkpoint_manager_try_def raise_or_def substitute_def)
qed

lemma interceptor_quiet:
  assumes "stdin c = Some v" and "\<not> starts_session v"
  shows "task_interceptor_main c w
       = print_json (if interceptor_accepts v then v else substitute ClassifyAndStart) w"
proof -
  let ?n = "bindE (py_get v ''tool'' (JObj [])) (\<lambda>t. py_get t ''name'' (JStr []))"
  let ?a = "bindE (py_get v ''tool'' (JObj [])) (\<lambda>t. py_get t ''arguments'' (JObj []))"
  show ?thesis
  proof (cases ?n)
    case (Inl e)
    then show ?thesis using assms(1)
      by (simp add: task_interceptor_main_def task_interceptor_try_def raise_or_def
            interceptor_accepts_def substitute_def)
  next
    case n: (Inr tn)
    then obtain ti where t: "py_get v ''tool'' (JObj []) = Inr ti" "py_get ti ''name'' (JStr []) = Inr tn"
      by (auto simp: bindE_Inr)
    from t(2) have "is_object ti" by (rule py_get_is_object)
    then obtain ps where "py_get ti ''arguments'' (JObj []) = Inr ps"
      using py_get_total by blast
    then have a: "?a = Inr ps" using t(1) by (simp add: bindE_def)
    show ?thesis
    proof (cases "tn = JStr ''Task''")
      case False
      then show ?thesis using assms(1) n a
        by (simp add: task_interceptor_main_def task_interceptor_try_def raise_or_def
              interceptor_accepts_def)
    next
      case task: True
      show ?thesis
      proof (cases "py_get ps ''prompt'' (JStr [])")
        case (Inl e)
        then show ?thesis using assms(1) n a task
          by (simp add: task_interceptor_main_def task_interceptor_try_def raise_or_def
                interceptor_accepts_def task_prompt_of_def substitute_def)
      next
        case pr: (Inr prompt)
        show ?thesis
        proof (cases "as_str prompt")
          case (Inl e)
          then have "task_prompt_of v = None" using a pr
            by (auto simp: task_prompt_of_def as_str_def split: json.splits)
          then show ?thesis using assms(1) n a task pr Inl
            by (simp add: task_interceptor_main_def task_interceptor_try_def raise_or_def
                  interceptor_accepts_def substitute_def)
        next
          case s: (Inr p)
          then have pj: "prompt = JStr p" by (auto simp: as_str_def split: json.splits)
          have tp: "task_prompt_of v = Some p" using a pr pj by (simp add: task_prompt_of_def)
          have "\<not> is_evolution_prompt p"
            using assms(2) n a task pr pj by (simp add: starts_session_def)
          then show ?thesis using assms(1) n a task pr s tp
            by (simp add: task_interceptor_main_def task_interceptor_try_def raise_or_def
                  interceptor_accepts_def)
        qed
      qed
    qed
  qed
qed

lemma starts_session_prompt:
  assumes "starts_session v"
  shows "\<exists>p. task_prompt_of v = Some p \<and> is_evolution_prompt p
           \<and> bindE (py_get v ''tool'' (JObj [])) (\<lambda>t. py_get t ''name'' (JStr [])) = Inr (JStr ''Task'')"
  using assms
  by (auto simp: starts_session_def task_prompt_of_def split: sum.splits json.splits)

lemma interceptor_started:
  assumes "stdin c = Some v" and "task_prompt_of v = Some p" and "is_evolution_prompt p"
    and "bindE (py_get v ''tool'' (JObj [])) (\<lambda>t. py_get t ''name'' (JStr [])) = Inr (JStr ''Task'')"
  shows "task_interceptor_try c w
       = raise_or (snd (setup_evolution_session c w))
           (write_file c (scratch_path (fst (setup_evolution_session c w)))
              [JsonLine (session_metadata c (fst (setup_evolution_session c w)) p)]
              (snd (setup_evolution_session c w)))
           (\<lambda>w2. Ok () (print_json v w2))"
proof -
  from assms(2) obtain ps where
    a: "bindE (py_get v ''tool'' (JObj [])) (\<lambda>t. py_get t ''arguments'' (JObj [])) = Inr ps"
    and pr: "py_get ps ''prompt'' (JStr []) = Inr (JStr p)"
    by (auto simp: task_prompt_of_def split: sum.splits json.splits)
  show ?thesis
    using assms(1,3,4) a pr
    by (simp add: task_interceptor_try_def raise_or_def as_str_def session_metadata_def
          scratch_path_def Let_def case_prod_beta)
qed

lemma interceptor_start_cases:
  assumes "stdin c = Some v" and "starts_session v"
  shows "\<exists>p. task_prompt_of v = Some p
           \<and> task_interceptor_main c w
             = (if \<not> faulty c (OpenWrite (scratch_path (fst (setup_evolution_session c w))))
                   \<and> \<not> is_dir w (scratch_path (fst (setup_evolution_session c w)))
                then print_json v
                       ((snd (setup_evolution_session c w))
                          \<lparr>files := AList.update (scratch_path (fst (setup_evolution_session c w)))
                              \<lparr>content = [JsonLine (session_metadata c
                                                       (fst (setup_evolution_session c w)) p)],
                               mtime = now_ms c\<rparr> (files w)\<rparr>)
                else print_json (substitute ClassifyAndStart) (snd (setup_evolution_session c w)))"
proof -
  from starts_session_prompt[OF assms(2)] obtain p where
    p: "task_prompt_of v = Some p" "is_evolution_prompt p"
       "bindE (py_get v ''tool'' (JObj [])) (\<lambda>t. py_get t ''name'' (JStr [])) = Inr (JStr ''Task'')"
    by blast
  have "task_interceptor_main c w
             = (if \<not> faulty c (OpenWrite (scratch_path (fst (setup_evolution_session c w))))
                   \<and> \<not> is_dir w (scratch_path (fst (setup_evolution_session c w)))
                then print_json v
                       ((snd (setup_evolution_session c w))
                          \<lparr>files := AList.update (scratch_path (fst (setup_evolution_session c w)))
                              \<lparr>content = [JsonLine (session_metadata c
                                                       (fst (setup_evolution_session c w)) p)],
                               mtime = now_ms c\<rparr> (files w)\<rparr>)
                else print_json (substitute ClassifyAndStart) (snd (setup_evolution_session c w)))"
    unfolding task_interceptor_main_def interceptor_started[OF assms(1) p]
    by (simp add: raise_or_def write_file_def setup_evolution_session_rest substitute_def)
  then show ?thesis using p(1) by blast
qed

text \<open>
  Claim C1, as amended. Let the environment hold no session id (\<^verbatim>\<open>EVOLUTION_SESSION_ID\<close>
  and \<^verbatim>\<open>TELEMETRY_SESSION_ID\<close> are each absent or empty) and let \<^verbatim>\<open>json.loads\<close> return the
  value \<open>v\<close> for standard input. Each entry point prints one value and, but for the last
  case, changes nothing else: no file, no directory, no environment variable. The value
  printed back is \<open>v\<close> as \<^verbatim>\<open>json.dumps\<close> prints it, so a number that \<^verbatim>\<open>json.loads\<close> read
  as infinite is printed as \<^verbatim>\<open>Infinity\<close>.
  \<^item> The pre-capture and post-capture entry points print \<open>v\<close> when \<open>v\<close> has a tool
    name (\<open>v\<close> is an object, its tool descriptor is absent or an object, and the name
    is absent or a string); otherwise they print their substitute object.
  \<^item> The checkpoint entry point prints \<open>v\<close> when the generation variable parses;
    otherwise it prints its substitute object \<^verbatim>\<open>{}\<close>.
  \<^item> The classify-and-start entry point, when \<open>v\<close> is not a call of \<^verbatim>\<open>Task\<close> whose
    prompt the classifier accepts, prints \<open>v\<close> when it can read \<open>v\<close> (\<open>v\<close> is an
    object, its tool descriptor is absent or an object and, for a call of \<^verbatim>\<open>Task\<close>, the
    arguments are absent or an object and the prompt is absent or a string); otherwise it
    prints its substitute object.
  \<^item> On a call of \<^verbatim>\<open>Task\<close> whose prompt \<open>p\<close> the classifier accepts, classify-and-start
    sets \<^verbatim>\<open>EVOLUTION_SESSION_ID\<close> and \<^verbatim>\<open>TELEMETRY_SESSION_ID\<close> to a fresh session id and
    \<^verbatim>\<open>TELEMETRY_ENABLED\<close> to \<^verbatim>\<open>true\<close>. When the scratch file of the session can be opened
    for writing, it then writes the metadata of the session into that file and prints
    \<open>v\<close>; when it cannot, it changes no file and prints its substitute object.
\<close>

theorem no_session_pass_through:
  assumes "stdin c = Some v"
    and "\<not> env_truthy w ''EVOLUTION_SESSION_ID''"
    and "\<not> env_truthy w ''TELEMETRY_SESSION_ID''"
  shows "run_entry PreCapture c w
           = print_json (if tool_name_of v \<noteq> None then v else substitute PreCapture) w
     \<and> run_entry PostCapture c w
           = print_json (if tool_name_of v \<noteq> None then v else substitute PostCapture) w
     \<and> run_entry Checkpoint c w
           = print_json (if generation_parses w then v else substitute Checkpoint) w
     \<and> (\<not> starts_session v \<longrightarrow>
           run_entry ClassifyAndStart c w
             = print_json (if interceptor_accepts v then v else substitute ClassifyAndStart) w)
     \<and> (starts_session v \<longrightarrow>
           (\<exists>p. task_prompt_of v = Some p
              \<and> run_entry ClassifyAndStart c w
                = (if \<not> faulty c (OpenWrite (scratch_path (fst (setup_evolution_session c w))))
                      \<and> \<not> is_dir w (scratch_path (fst (setup_evolution_session c w)))
                   then print_json v
                          ((snd (setup_evolution_session c w))
                             \<lparr>files := AList.update (scratch_path (fst (setup_evolution_session c w)))
                                 \<lparr>content = [JsonLine (session_metadata c
                                                          (fst (setup_evolution_session c w)) p)],
                                  mtime = now_ms c\<rparr> (files w)\<rparr>)
                   else print_json (substitute ClassifyAndStart)
                          (snd (setup_evolution_session c w))))
           \<and> environ (run_entry ClassifyAndStart c w)
               = (environ w)(''EVOLUTION_SESSION_ID'' \<mapsto> fst (setup_evolution_session c w),
                             ''TELEMETRY_ENABLED'' \<mapsto> ''true'',
                             ''TELEMETRY_SESSION_ID'' \<mapsto> fst (setup_evolution_session c w)))"
proof (intro conjI impI)
  show "run_entry PreCapture c w
           = print_json (if tool_name_of v \<noteq> None then v else substitute PreCapture) w"
  proof (cases "tool_name_of v")
    case None
    then show ?thesis using enhancer_fallback[OF assms(1) None, of w] by (simp add: run_entry_def)
  next
    case (Some n)
    then show ?thesis
      using enhancer_pass[OF assms(1) Some, of w] assms(2) by (simp add: run_entry_def)
  qed
next
  show "run_entry PostCapture c w
           = print_json (if tool_name_of v \<noteq> None then v else substitute PostCapture) w"
  proof (cases "tool_name_of v")
    case None
    then show ?thesis using collector_fallback[OF assms(1) None, of w] by (simp add: run_entry_def)
  next
    case (Some n)
    then show ?thesis
      using collector_pass[OF assms(1) Some, of w] assms(2) by (simp add: run_entry_def)
  qed
next
  show "run_entry Checkpoint c w
           = print_json (if generation_parses w then v else substitute Checkpoint) w"
  proof (cases "generation_parses w")
    case False
    then show ?thesis using checkpoint_generation_fails[OF False, of c] by (simp add: run_entry_def)
  next
    case True
    then obtain si where si: "get_session_info w = Inr si"
      by (auto simp: generation_parses_def split: sum.splits)
    show ?thesis
      using checkpoint_pass[OF si, of c] no_session_id[OF si assms(2,3)] assms(1) True
      by (simp add: run_entry_def)
  qed
next
  assume "\<not> starts_session v"
  then show "run_entry ClassifyAndStart c w
             = print_json (if interceptor_accepts v then v else substitute ClassifyAndStart) w"
    using interceptor_quiet[OF assms(1), of w] by (simp add: run_entry_def)
next
  assume "starts_session v"
  then show "\<exists>p. task_prompt_of v = Some p
              \<and> run_entry ClassifyAndStart c w
                = (if \<not> faulty c (OpenWrite (scratch_path (fst (setup_evolution_session c w))))
                      \<and> \<not> is_dir w (scratch_path (fst (setup_evolution_session c w)))
                   then print_json v
                          ((snd (setup_evolution_session c w))
                             \<lparr>files := AList.update (scratch_path (fst (setup_evolution_session c w)))
                                 \<lparr>content = [JsonLine (session_metadata c
                                                          (fst (setup_evolution_session c w)) p)],
                                  mtime = now_ms c\<rparr> (files w)\<rparr>)
                   else print_json (substitute ClassifyAndStart)
                          (snd (setup_evolution_session c w)))"
    using interceptor_start_cases[OF assms(1), of w] by (simp add: run_entry_def)
next
  assume s: "starts_session v"
  from interceptor_start_cases[OF assms(1) s, of w] obtain p where
    m: "task_interceptor_main c w
             = (if \<not> faulty c (OpenWrite (scratch_path (fst (setup_evolution_session c w))))
                   \<and> \<not> is_dir w (scratch_path (fst (setup_evolution_session c w)))
                then print_json v
                       ((snd (setup_evolution_session c w))
                          \<lparr>files := AList.update (scratch_path (fst (setup_evolution_session c w)))
                              \<lparr>content = [JsonLine (session_metadata c
                                                       (fst (setup_evolution_session c w)) p)],
                               mtime = now_ms c\<rparr> (files w)\<rparr>)
                else print_json (substitute ClassifyAndStart) (snd (setup_evolution_session c w)))"
    by blast
  have e: "environ (snd (setup_evolution_session c w))
         = (environ w)(''EVOLUTION_SESSION_ID'' \<mapsto> fst (setup_evolution_session c w),
                       ''TELEMETRY_ENABLED'' \<mapsto> ''true'',
                       ''TELEMETRY_SESSION_ID'' \<mapsto> fst (setup_evolution_session c w))"
    by (subst setup_evolution_session_world) simp
  show "environ (run_entry ClassifyAndStart c w)
               = (environ w)(''EVOLUTION_SESSION_ID'' \<mapsto> fst (setup_evolution_session c w),
                             ''TELEMETRY_ENABLED'' \<mapsto> ''true'',
                             ''TELEMETRY_SESSION_ID'' \<mapsto> fst (setup_evolution_session c w))"
    unfolding run_entry_def entry_point.case m
    by (simp add: print_json_rest e)
qed

theorem no_session_pass_through_witness:
  "run_entry PreCapture (quiet_ctx (Some tool_envelope) 1700000000123) empty_world
     = print_json tool_envelope empty_world
   \<and> run_entry PostCapture (quiet_ctx (Some tool_envelope) 1700000000123) empty_world
     = print_json tool_envelope empty_world
   \<and> run_entry Checkpoint (quiet_ctx (Some tool_envelope) 1700000000123) empty_world
     = print_json tool_envelope empty_world
   \<and> run_entry ClassifyAndStart (quiet_ctx (Some tool_envelope) 1700000000123) empty_world
     = print_json tool_envelope empty_world
   \<and> is_file (run_entry ClassifyAndStart (quiet_ctx (Some task_envelope) 1700000000123) empty_world)
       ''/tmp/evolution-1700000000-evolution-1b4e28ba.json''"
proof -
  let ?c = "quiet_ctx (Some tool_envelope) 1700000000123"
  let ?d = "quiet_ctx (Some task_envelope) 1700000000123"
  have i: "stdin ?c = Some tool_envelope" "stdin ?d = Some task_envelope"
    by (simp_all add: quiet_ctx_def)
  have e: "\<not> env_truthy empty_world ''EVOLUTION_SESSION_ID''"
          "\<not> env_truthy empty_world ''TELEMETRY_SESSION_ID''"
    by (simp_all add: env_truthy_def empty_world_def)
  have n: "tool_name_of tool_envelope \<noteq> None" "interceptor_accepts tool_envelope"
          "\<not> starts_session tool_envelope" "starts_session task_envelope"
    by code_simp+
  have g: "generation_parses empty_world"
    by (simp add: generation_parses_def get_session_info_def empty_world_def bindE_def py_isdigit_def
          py_int_def ascii_digit_def)
  have sid: "fst (setup_evolution_session ?d empty_world) = ''1700000000-evolution-1b4e28ba''"
    by code_simp
  have sp: "scratch_path ''1700000000-evolution-1b4e28ba''
            = ''/tmp/evolution-1700000000-evolution-1b4e28ba.json''"
    by (simp add: scratch_path_def)
  have f: "\<not> faulty ?d (OpenWrite (scratch_path (fst (setup_evolution_session ?d empty_world))))"
          "\<not> is_dir empty_world (scratch_path (fst (setup_evolution_session ?d empty_world)))"
    by (simp_all add: quiet_ctx_def is_dir_def empty_world_def)
  have a: "run_entry PreCapture ?c empty_world = print_json tool_envelope empty_world"
          "run_entry PostCapture ?c empty_world = print_json tool_envelope empty_world"
          "run_entry Checkpoint ?c empty_world = print_json tool_envelope empty_world"
          "run_entry ClassifyAndStart ?c empty_world = print_json tool_envelope empty_world"
    using no_session_pass_through[OF i(1) e] n g by simp_all
  from no_session_pass_through[OF i(2) e] n(4) f obtain p where
    "run_entry ClassifyAndStart ?d empty_world
       = print_json task_envelope
           ((snd (setup_evolution_session ?d empty_world))
              \<lparr>files := AList.update (scratch_path (fst (setup_evolution_session ?d empty_world)))
                  \<lparr>content = [JsonLine (session_metadata ?d
                                           (fst (setup_evolution_session ?d empty_world)) p)],
                   mtime = now_ms ?d\<rparr> (files empty_world)\<rparr>)"
    by auto
  then have b: "is_file (run_entry ClassifyAndStart ?d empty_world)
                  (scratch_path (fst (setup_evolution_session ?d empty_world)))"
    by (simp add: print_json_def is_file_def update_conv')
  show ?thesis using a b unfolding sid sp by (intro conjI)
qed

text \<open>
  Claim C1 as stated fails for the classify-and-start entry point: with no session in the
  environment, a call of \<^verbatim>\<open>Task\<close> whose prompt the classifier accepts creates the scratch
  metadata file of a new session.
\<close>

theorem classify_and_start_counterexample:
  "\<not> env_truthy empty_world ''EVOLUTION_SESSION_ID''
   \<and> \<not> env_truthy empty_world ''TELEMETRY_SESSION_ID''
   \<and> files empty_world = []
   \<and> map fst (files (run_entry ClassifyAndStart (quiet_ctx (Some task_envelope) 1700000000123)
                        empty_world))
       = [''/tmp/evolution-1700000000-evolution-1b4e28ba.json'']"
  by code_simp

section \<open>Session creation and the checkpoint\<close>

lemma interceptor_environ:
  assumes "k \<noteq> ''EVOLUTION_SESSION_ID''" and "k \<noteq> ''TELEMETRY_ENABLED''"
    and "k \<noteq> ''TELEMETRY_SESSION_ID''"
  shows "environ (task_interceptor_main c w) k = environ w k"
proof (cases rule: interceptor_try_cases[of c w])
  case unparsed
  then show ?thesis by (simp add: task_interceptor_main_def print_json_rest)
next
  case (raised v e)
  then show ?thesis by (simp add: task_interceptor_main_def print_json_rest)
next
  case (passed v)
  then show ?thesis by (simp add: task_interceptor_main_def print_json_rest)
next
  case (started v p w2)
  then show ?thesis using assms io_environ(3)[OF started(4)]
    by (simp add: task_interceptor_main_def print_json_rest)
       (subst setup_evolution_session_world, simp)
next
  case (start_failed v p e)
  then show ?thesis using assms
    by (simp add: task_interceptor_main_def print_json_rest)
       (subst setup_evolution_session_world, simp)
qed

lemma generation_parses_environ:
  "environ w' ''TELEMETRY_GENERATION'' = environ w ''TELEMETRY_GENERATION''
     \<Longrightarrow> generation_parses w' = generation_parses w"
  by (simp add: generation_parses_def get_session_info_def Let_def bindE_def split: sum.split)

text \<open>
  Claim C3 fails on the code. Session creation publishes the session id (under two names)
  and \<^verbatim>\<open>TELEMETRY_ENABLED\<close>; it never sets \<^verbatim>\<open>EVOLUTION_SESSION_ACTIVE\<close>, the flag the
  checkpoint tests. So unless that flag comes from elsewhere, a checkpoint that follows
  classify-and-start only prints its input: nothing is finalized, archived, swept or
  cleared.
\<close>

theorem created_session_is_not_checkpointed:
  assumes "\<not> env_truthy w ''EVOLUTION_SESSION_ACTIVE''" and "generation_parses w"
  shows "environ (run_entry ClassifyAndStart c w) ''EVOLUTION_SESSION_ACTIVE''
           = environ w ''EVOLUTION_SESSION_ACTIVE''
       \<and> run_entry Checkpoint c' (run_entry ClassifyAndStart c w)
           = print_json (case stdin c' of None \<Rightarrow> JObj [] | Some v \<Rightarrow> v)
               (run_entry ClassifyAndStart c w)"
proof -
  let ?w1 = "task_interceptor_main c w"
  have a: "environ ?w1 ''EVOLUTION_SESSION_ACTIVE'' = environ w ''EVOLUTION_SESSION_ACTIVE''"
    by (rule interceptor_environ) simp_all
  have g: "environ ?w1 ''TELEMETRY_GENERATION'' = environ w ''TELEMETRY_GENERATION''"
    by (rule interceptor_environ) simp_all
  have "generation_parses ?w1"
    using generation_parses_environ[OF g] assms(2) by simp
  then obtain si where si: "get_session_info ?w1 = Inr si"
    by (auto simp: generation_parses_def split: sum.splits)
  have na: "\<not> env_truthy ?w1 ''EVOLUTION_SESSION_ACTIVE''"
    using a assms(1) by (simp add: env_truthy_def)
  show ?thesis
    using a checkpoint_pass[OF si, of c'] na by (simp add: run_entry_def)
qed

theorem created_session_is_not_checkpointed_witness:
  "environ (run_entry ClassifyAndStart (quiet_ctx (Some task_envelope) 1700000000123) empty_world)
       ''EVOLUTION_SESSION_ID'' = Some ''1700000000-evolution-1b4e28ba''
   \<and> environ (run_entry ClassifyAndStart (quiet_ctx (Some task_envelope) 1700000000123) empty_world)
       ''EVOLUTION_SESSION_ACTIVE'' = None
   \<and> run_entry Checkpoint (quiet_ctx None 1700000600000)
        (run_entry ClassifyAndStart (quiet_ctx (Some task_envelope) 1700000000123) empty_world)
       = print_json (JObj [])
           (run_entry ClassifyAndStart (quiet_ctx (Some task_envelope) 1700000000123) empty_world)"
proof -
  let ?c = "quiet_ctx (Some task_envelope) 1700000000123"
  have e: "\<not> env_truthy empty_world ''EVOLUTION_SESSION_ACTIVE''"
    by (simp add: env_truthy_def empty_world_def)
  have g: "generation_parses empty_world"
    by (simp add: generation_parses_def get_session_info_def empty_world_def bindE_def py_isdigit_def
          py_int_def ascii_digit_def)
  have s: "environ (run_entry ClassifyAndStart ?c empty_world) ''EVOLUTION_SESSION_ID''
             = Some ''1700000000-evolution-1b4e28ba''"
    by code_simp
  have n: "environ empty_world ''EVOLUTION_SESSION_ACTIVE'' = None" "stdin (quiet_ctx None 1700000600000) = None"
    by (simp_all add: empty_world_def quiet_ctx_def)
  show ?thesis
    using created_session_is_not_checkpointed[OF e g, of ?c "quiet_ctx None 1700000600000"] s n
    by simp
qed

section \<open>A checkpoint whose archive step fails\<close>

lemma finalize_other_files:
  "p \<noteq> log_path c sid \<Longrightarrow>
     map_of (files (finalize_telemetry_session c sid w)) p = map_of (files w) p"
  by (auto simp: finalize_telemetry_session_def append_line_def Let_def update_conv'
        split: sum.split if_splits)

lemma finalize_dirs: "dirs (finalize_telemetry_session c sid w) = dirs w"
  by (auto simp: finalize_telemetry_session_def append_line_def Let_def split: sum.split if_splits)

lemma checkpoint_active:
  assumes "get_session_info w = Inr si" and "si_session_id si = Some sid" and "sid \<noteq> []"
    and "env_truthy w ''EVOLUTION_SESSION_ACTIVE''"
  shows "checkpoint_manager_try c w =
     (case archive_evolution_data c sid (finalize_telemetry_session c sid w) of
        Fail e w2 \<Rightarrow> Fail e w2
      | Ok archive_path w2 \<Rightarrow>
          Ok () (print_json (case stdin c of None \<Rightarrow> JObj [] | Some v \<Rightarrow> v)
                   (clear_evolution_environment
                      (cleanup_temporary_files c
                         (generate_resume_instructions c sid archive_path w2)))))"
  using assms by (simp add: checkpoint_manager_try_def raise_or_def Let_def split: result.split)

text \<open>
  When the archive step fails inside its \<^verbatim>\<open>try\<close> (both directories exist, a copy or the
  summary fails), no archive path is returned, the resume guide is skipped, and the sweep
  and the clearing of the environment follow.
\<close>

lemma checkpoint_archive_failed_inside_try:
  assumes "get_session_info w = Inr si" and "si_session_id si = Some sid" and "sid \<noteq> []"
    and "env_truthy w ''EVOLUTION_SESSION_ACTIVE''"
    and "archive_evolution_data c sid (finalize_telemetry_session c sid w) = Ok None w2"
  shows "checkpoint_manager_main c w
       = print_json (case stdin c of None \<Rightarrow> JObj [] | Some v \<Rightarrow> v)
           (clear_evolution_environment (cleanup_temporary_files c w2))"
  using checkpoint_active[OF assms(1-4), of c] assms(5)
  by (simp add: checkpoint_manager_main_def generate_resume_instructions_def)

text \<open>
  Claim C7 fails on the code when the archive step fails in \<^verbatim>\<open>os.makedirs\<close>, which stands
  before the \<^verbatim>\<open>try\<close> of \<^verbatim>\<open>archive_evolution_data\<close>: the exception reaches the handler
  of \<^verbatim>\<open>main\<close>, which prints the empty object. The completion marker has been appended,
  but no scratch file is swept and the session id and the active flag stay in the
  environment.
\<close>

theorem checkpoint_aborted_by_makedirs:
  assumes "get_session_info w = Inr si" and "si_session_id si = Some sid" and "sid \<noteq> []"
    and "env_truthy w ''EVOLUTION_SESSION_ACTIVE''"
    and "faulty c (Makedirs (home c @ ''/.claude/evolution-archive''))"
  shows "run_entry Checkpoint c w = print_json (JObj []) (finalize_telemetry_session c sid w)
       \<and> environ (run_entry Checkpoint c w) = environ w
       \<and> dirs (run_entry Checkpoint c w) = dirs w
       \<and> (\<forall>p. p \<noteq> log_path c sid \<longrightarrow>
              map_of (files (run_entry Checkpoint c w)) p = map_of (files w) p)"
proof -
  have "archive_evolution_data c sid (finalize_telemetry_session c sid w)
          = Fail OSError (finalize_telemetry_session c sid w)"
    using assms(3,5) by (simp add: archive_evolution_data_def os_makedirs_def raise_or_def)
  then have m: "checkpoint_manager_main c w = print_json (JObj []) (finalize_telemetry_session c sid w)"
    using checkpoint_active[OF assms(1-4), of c] by (simp add: checkpoint_manager_main_def)
  show ?thesis
    unfolding run_entry_def entry_point.case m
    using finalize_frame[of c sid w]
    by (simp add: print_json_rest finalize_other_files finalize_dirs)
qed

theorem checkpoint_aborted_by_makedirs_witness:
  "environ (run_entry Checkpoint (archive_blocked_ctx 1700000000000) active_session_world)
       ''EVOLUTION_SESSION_ID'' = Some ''s1''
   \<and> environ (run_entry Checkpoint (archive_blocked_ctx 1700000000000) active_session_world)
       ''EVOLUTION_SESSION_ACTIVE'' = Some ''1''
   \<and> map_of (files (run_entry Checkpoint (archive_blocked_ctx 1700000000000) active_session_world))
       ''/tmp/evolution-old.json'' = Some \<lparr>content = [], mtime = 1699994600000\<rparr>
   \<and> stdout (run_entry Checkpoint (archive_blocked_ctx 1700000000000) active_session_world)
       = [JObj []]
   \<and> map_of (files (run_entry Checkpoint (quiet_ctx None 1700000000000) active_session_world))
       ''/tmp/evolution-old.json'' = None
   \<and> environ (run_entry Checkpoint (quiet_ctx None 1700000000000) active_session_world)
       ''EVOLUTION_SESSION_ID'' = None"
proof -
  let ?c = "archive_blocked_ctx 1700000000000"
  let ?si = "\<lparr>si_session_id = Some ''s1'', si_agent_id = ''unknown'', si_generation = 0\<rparr>"
  have g: "get_session_info active_session_world = Inr ?si"
    by (simp add: get_session_info_def active_session_world_def bindE_def py_isdigit_def
          py_isdigit_char_def py_int_def ascii_digit_def)
  have a: "env_truthy active_session_world ''EVOLUTION_SESSION_ACTIVE''"
    by (simp add: env_truthy_def active_session_world_def)
  have f: "faulty ?c (Makedirs (home ?c @ ''/.claude/evolution-archive''))"
    by (simp add: archive_blocked_ctx_def quiet_ctx_def)
  have l: "''/tmp/evolution-old.json'' \<noteq> log_path ?c ''s1''"
    by (simp add: log_path_def path_join_def telemetry_dir_def archive_blocked_ctx_def quiet_ctx_def)
  have w: "environ active_session_world ''EVOLUTION_SESSION_ID'' = Some ''s1''"
     "environ active_session_world ''EVOLUTION_SESSION_ACTIVE'' = Some ''1''"
     "map_of (files active_session_world) ''/tmp/evolution-old.json''
        = Some \<lparr>content = [], mtime = 1699994600000\<rparr>"
     "stdout (finalize_telemetry_session ?c ''s1'' active_session_world) = []"
    using finalize_frame[of ?c "''s1''" active_session_world]
    by (simp_all add: active_session_world_def)
  have q: "map_of (files (run_entry Checkpoint (quiet_ctx None 1700000000000) active_session_world))
       ''/tmp/evolution-old.json'' = None
   \<and> environ (run_entry Checkpoint (quiet_ctx None 1700000000000) active_session_world)
       ''EVOLUTION_SESSION_ID'' = None"
    by code_simp
  note t = checkpoint_aborted_by_makedirs[OF g _ _ a f, of "''s1''", simplified]
  have t1: "environ (run_entry Checkpoint ?c active_session_world) = environ active_session_world"
    using t by blast
  have t2: "map_of (files (run_entry Checkpoint ?c active_session_world)) ''/tmp/evolution-old.json''
      = map_of (files active_session_world) ''/tmp/evolution-old.json''"
    using t l by blast
  have t3: "stdout (run_entry Checkpoint ?c active_session_world) = [JObj []]"
    using t w(4) by (simp add: print_json_stdout)
  show ?thesis
    using t1 t2 t3 w(1,2,3) q by simp
qed

section \<open>Invocations within a session\<close>

lemma session_info_active:
  assumes "environ w ''EVOLUTION_SESSION_ID'' = Some sid" and "sid \<noteq> []" and "generation_parses w"
  shows "\<exists>si. get_session_info w = Inr si \<and> si_session_id si = Some sid"
  using assms
  by (auto simp: generation_parses_def get_session_info_def Let_def bindE_def split: sum.splits)

lemma get_session_info_environ:
  "environ w' = environ w \<Longrightarrow> get_session_info w' = get_session_info w"
  by (simp add: get_session_info_def cong: option.case_cong if_cong)

lemma is_object_get: "is_object v \<Longrightarrow> py_get v k d = Inr (case dict_field k v of Some x \<Rightarrow> x | None \<Rightarrow> d)"
  by (auto simp: is_object_def py_get_def dict_field_def split: json.splits)

lemma complete_record_exists:
  assumes "get_session_info w = Inr si" and "is_object ti" and "is_object r"
  shows "\<exists>rcd. complete_telemetry_record c w ti r t = Inr rcd
          \<and> map_of rcd ''session_id'' = Some (json_of_sid (si_session_id si))
          \<and> map_of rcd ''capture_source'' = Some (JStr ''hook_postuse'')"
proof -
  obtain err where e: "py_get r ''error'' JNull = Inr err"
    using py_get_total[OF assms(3)] by blast
  obtain nm ar tn where g: "py_get ti ''name'' (JStr ''unknown'') = Inr nm"
      "py_get ti ''arguments'' (JObj []) = Inr ar" "py_get ti ''name'' (JStr []) = Inr tn"
    using py_get_total[OF assms(2)] by metis
  obtain a where a: "analyze_tool_result (py_repr c) tn r = Inr a"
    using analysis_shape[OF e] by blast
  show ?thesis
    using assms(1) e g a
    by (simp add: complete_telemetry_record_def bindE_def Let_def update_conv')
qed

lemma write_telemetry_record_active:
  assumes "map_of rcd ''session_id'' = Some (JStr sid)" and "sid \<noteq> []"
    and "\<not> faulty c (Makedirs (telemetry_dir c))" and "\<not> is_file w (telemetry_dir c)"
  shows "write_telemetry_record c rcd w
       = Ok () (case append_line c (log_path c sid) (JsonLine (JObj rcd)) (with_telemetry_dir c w) of
                  Inr w2 \<Rightarrow> w2
                | Inl e \<Rightarrow> with_telemetry_dir c w)"
  using assms
  by (simp add: write_telemetry_record_def truthy_def os_makedirs_def raise_or_def Let_def
        py_str_def log_path_def with_telemetry_dir_def split: sum.split)


subsection \<open>The three paths of a session are distinct\<close>

lemma last_path_join: "b \<noteq> [] \<Longrightarrow> last (path_join a b) = last b"
  by (simp add: path_join_def)

lemma last_log_path: "last (log_path c sid) = CHR ''l''"
  by (simp add: log_path_def last_path_join)

lemma last_stats_path: "last (stats_path c sid) = CHR ''n''"
  by (simp add: stats_path_def)

lemma last_telemetry_dir: "last (telemetry_dir c) = CHR ''y''"
  by (simp add: telemetry_dir_def)

lemma session_paths_distinct:
  "log_path c sid \<noteq> stats_path c sid'" "log_path c sid \<noteq> telemetry_dir c'"
  "stats_path c sid \<noteq> telemetry_dir c'"
proof -
  have "last (log_path c sid) \<noteq> last (stats_path c sid')"
    by (simp add: last_log_path last_stats_path)
  then show "log_path c sid \<noteq> stats_path c sid'" by auto
  have "last (log_path c sid) \<noteq> last (telemetry_dir c')"
    by (simp add: last_log_path last_telemetry_dir)
  then show "log_path c sid \<noteq> telemetry_dir c'" by auto
  have "last (stats_path c sid) \<noteq> last (telemetry_dir c')"
    by (simp add: last_stats_path last_telemetry_dir)
  then show "stats_path c sid \<noteq> telemetry_dir c'" by auto
qed

subsection \<open>The log append and the stats update\<close>

lemma stats_other_files:
  "p \<noteq> stats_path c sid \<Longrightarrow>
     map_of (files (update_session_statistics c sid w)) p = map_of (files w) p"
  by (auto simp: update_session_statistics_def Let_def bindE_def write_file_def update_conv'
        split: sum.split json.split if_splits)


lemma append_step_other:
  assumes "w2 = (case append_line c l x (with_telemetry_dir c w) of
                   Inr w' \<Rightarrow> w' | Inl e \<Rightarrow> with_telemetry_dir c w)"
  shows "p \<noteq> l \<Longrightarrow> map_of (files w2) p = map_of (files w) p"
    and "is_dir w2 p \<longleftrightarrow> is_dir w p \<or> p = telemetry_dir c"
    and "stdout w2 = stdout w"
  unfolding assms
  by (auto simp: append_line_def with_telemetry_dir_def Let_def update_conv' is_dir_def
        split: sum.split if_splits)

lemma append_step_log:
  assumes "w2 = (case append_line c l x (with_telemetry_dir c w) of
                   Inr w' \<Rightarrow> w' | Inl e \<Rightarrow> with_telemetry_dir c w)"
  shows "\<not> faulty c (OpenAppend l) \<Longrightarrow> \<not> is_dir w l \<Longrightarrow> l \<noteq> telemetry_dir c
           \<Longrightarrow> lines_of w2 l = lines_of w l @ [x]"
    and "faulty c (OpenAppend l) \<Longrightarrow> lines_of w2 l = lines_of w l"
  unfolding assms
  by (auto simp: append_line_def with_telemetry_dir_def Let_def update_conv' is_dir_def lines_of_def
        split: option.splits)


lemma lines_of_cong:
  "map_of (files w') p = map_of (files w) p \<Longrightarrow> lines_of w' p = lines_of w p"
  by (simp add: lines_of_def)



section \<open>The reference label\<close>

lemma rx_more_not_newline:
  "rx_more NotNewline [] taken xs = Some (taken @ rest_of_line xs)"
  by (induction xs arbitrary: taken) (simp_all add: in_cls_def rest_of_line_def)

lemma rx_match_group:
  "rx_match [GroupPlus NotNewline] s cap
     = (if s \<noteq> [] \<and> hd s \<noteq> CHR 0x0A then Some (rest_of_line s) else None)"
  by (cases s) (simp_all add: in_cls_def rx_more_not_newline rest_of_line_def)

lemma newline_isspace: "py_isspace (CHR 0x0A)"
  by (simp add: py_isspace_def)

lemma only_newlines_space: "only_newlines s \<Longrightarrow> dropWhile py_isspace s = []"
  by (induction s) (simp_all add: only_newlines_def newline_isspace)

lemma only_newlines_line: "only_newlines s \<Longrightarrow> rest_of_line s = []"
  by (cases s) (simp_all add: only_newlines_def rest_of_line_def)

lemma py_strip_space: "py_isspace x \<Longrightarrow> py_strip [x] = []"
  by (simp add: py_strip_def)

lemma rx_match_tail:
  "map_option py_strip (rx_match [Star Space, GroupPlus NotNewline] s cap)
     = (if only_newlines s then None
        else Some (py_strip (rest_of_line (dropWhile py_isspace s))))"
proof (induction s)
  case Nil
  show ?case by (simp add: only_newlines_def)
next
  case (Cons x xs)
  show ?case
  proof (cases "py_isspace x")
    case False
    then have "x \<noteq> CHR 0x0A" using newline_isspace by auto
    then show ?thesis using False
      by (simp add: in_cls_def rx_more_not_newline rest_of_line_def only_newlines_def)
  next
    case sp: True
    show ?thesis
    proof (cases "only_newlines xs")
      case False
      then obtain g where g: "rx_match [Star Space, GroupPlus NotNewline] xs cap = Some g"
        using Cons.IH by (auto split: if_splits)
      show ?thesis using Cons.IH False sp g
        by (simp add: in_cls_def only_newlines_def)
    next
      case True
      then have n: "rx_match [Star Space, GroupPlus NotNewline] xs cap = None"
        using Cons.IH by simp
      show ?thesis
      proof (cases "x = CHR 0x0A")
        case True
        then show ?thesis using n sp \<open>only_newlines xs\<close>
          by (simp add: in_cls_def only_newlines_def)
      next
        case False
        have a: "rx_match [Star Space, GroupPlus NotNewline] (x # xs) cap = Some [x]"
          using n sp False only_newlines_line[OF True]
          by (simp add: in_cls_def rx_more_not_newline)
        have b: "dropWhile py_isspace (x # xs) = []"
          using sp only_newlines_space[OF True] by simp
        have c: "\<not> only_newlines (x # xs)"
          using False by (simp add: only_newlines_def)
        show ?thesis unfolding a b using c sp
          by (simp add: py_strip_space rest_of_line_def py_strip_def)
      qed
    qed
  qed
qed

lemma rx_match_literal:
  "rx_match (map Lit l @ r) s cap
     = (if ci_prefix l s then rx_match r (drop (length l) s) cap else None)"
proof (induction l arbitrary: s)
  case Nil
  show ?case by (simp add: ci_prefix_def py_lower_def)
next
  case (Cons c l)
  show ?case
  proof (cases s)
    case Nil
    then show ?thesis by (simp add: ci_prefix_def py_lower_def)
  next
    case (Cons x xs)
    then show ?thesis using Cons.IH[of xs]
      by (auto simp: ci_prefix_def py_lower_def)
  qed
qed

lemma re_search_label:
  "map_option py_strip (re_search (map Lit l @ [Star Space, GroupPlus NotNewline]) t)
     = label_text l t"
proof (induction t)
  case Nil
  show ?case by (simp add: rx_match_literal)
next
  case (Cons x xs)
  let ?p = "map Lit l @ [Star Space, GroupPlus NotNewline]"
  have m: "map_option py_strip (rx_match ?p (x # xs) [])
         = (if ci_prefix l (x # xs) \<and> \<not> only_newlines (drop (length l) (x # xs))
            then Some (py_strip (rest_of_line (dropWhile py_isspace (drop (length l) (x # xs)))))
            else None)"
    unfolding rx_match_literal
    using rx_match_tail[of "drop (length l) (x # xs)" "[]"] by (simp split: if_splits)
  show ?case
  proof (cases "rx_match ?p (x # xs) []")
    case None
    then show ?thesis using m Cons.IH by (auto split: if_splits)
  next
    case (Some g)
    then show ?thesis using m by (simp split: if_splits)
  qed
qed

lemma first_match_cons:
  "first_match (p # rest) t
     = (case map_option py_strip (re_search p t) of Some r \<Rightarrow> Some r | None \<Rightarrow> first_match rest t)"
  by (simp split: option.split)

text \<open>
  Claim C8, as amended. \<^verbatim>\<open>extract_reference_info\<close> takes the labels \<^verbatim>\<open>reference image:\<close> and
  \<^verbatim>\<open>reference:\<close> in this order, letters compared up to case. For a label it looks for the
  leftmost occurrence that is followed by a character other than a line break, skips the
  whitespace after the label, line breaks included, takes the text from there up to the
  end of the line and trims it. The first label with such an occurrence gives the result;
  the result is absent when neither label has one, so when no label occurs and also when
  a label is followed by nothing but line breaks.
\<close>

theorem extract_reference_info_label_text:
  "extract_reference_info t = reference_of t"
  unfolding extract_reference_info_def ref_patterns_def reference_of_def first_match_cons
    re_search_label
  by (simp split: option.split)

theorem extract_reference_info_label_text_witness:
  "extract_reference_info labelled_prompt = Some ''cover.png''"
proof -
  have r: "reference_of labelled_prompt = Some ''cover.png''"
    by code_simp
  show ?thesis
    unfolding extract_reference_info_label_text by (rule r)
qed

text \<open>
  Claim C8 as stated fails where it takes the text up to the end of the line of the label:
  the whitespace that the pattern skips after the label may hold line breaks, so for the
  prompt of the two lines \<^verbatim>\<open>Reference:\<close> and \<^verbatim>\<open>cover.png\<close>, in which nothing follows the
  label on its line, the result is the text of the next line.
\<close>

theorem reference_on_next_line_counterexample:
  "extract_reference_info label_before_line_break = Some ''cover.png''
   \<and> spec_extract_reference label_before_line_break = Some []"
  by code_simp

section \<open>The log of a session\<close>

lemma valid_json_obj: "valid_json (JObj kvs) \<longleftrightarrow> (\<forall>x \<in> snd ` set kvs. valid_json x)"
  by (induction kvs) auto

lemma valid_json_update:
  "valid_json (JObj kvs) \<Longrightarrow> valid_json x \<Longrightarrow> valid_json (JObj (AList.update k x kvs))"
  by (induction kvs) auto

lemma valid_json_get:
  assumes "py_get d k dflt = Inr x" and "valid_json d" and "valid_json dflt"
  shows "valid_json x"
proof -
  from py_get_obj[OF assms(1)] obtain kvs where
    d: "d = JObj kvs" and x: "x = (case map_of kvs k of Some y \<Rightarrow> y | None \<Rightarrow> dflt)"
    by blast
  show ?thesis
  proof (cases "map_of kvs k")
    case None
    then show ?thesis using x assms(3) by simp
  next
    case (Some y)
    then have "y \<in> snd ` set kvs" by (metis map_of_SomeD snd_conv image_eqI)
    then have "valid_json y" using assms(2) unfolding d valid_json_obj by blast
    then show ?thesis using x Some by simp
  qed
qed

lemma py_any_in_total:
  "py_len a = Inr k \<Longrightarrow> \<exists>b. py_any_in keys a = Inr b"
proof (induction keys)
  case Nil
  then show ?case by auto
next
  case (Cons key keys)
  then obtain b where b: "py_any_in keys a = Inr b" by blast
  from Cons.prems obtain x where "py_contains key a = Inr x"
    by (auto simp: py_len_def py_contains_def split: json.splits)
  then show ?case using b by (auto simp: bindE_def)
qed

lemma analyze_tool_usage_total:
  assumes "py_len a = Inr k"
  shows "\<exists>u. analyze_tool_usage repr n a = Inr u \<and> valid_json (JObj u)"
proof -
  obtain b1 b2 b3 where
    "py_any_in [''x'', ''y'', ''width'', ''height''] a = Inr b1"
    "py_any_in [''text'', ''content'', ''description''] a = Inr b2"
    "py_any_in [''style'', ''font'', ''alignment''] a = Inr b3"
    using py_any_in_total[OF assms] by metis
  then show ?thesis using assms
    by (simp add: analyze_tool_usage_def bindE_def)
qed

lemma enhance_record_exists:
  assumes "get_session_info w = Inr si" and "is_object ti"
  shows "\<exists>r. enhance_telemetry_capture c w ti = Inr r
          \<and> map_of r ''session_id'' = Some (json_of_sid (si_session_id si))
          \<and> map_of r ''capture_source'' = Some (JStr ''hook_preuse'')
          \<and> (valid_json ti \<longrightarrow> valid_json (JObj r))"
proof -
  obtain nm ar where g: "py_get ti ''name'' (JStr ''unknown'') = Inr nm"
      "py_get ti ''arguments'' (JObj []) = Inr ar"
    using py_get_total[OF assms(2)] by metis
  have v: "valid_json ti \<Longrightarrow> valid_json nm \<and> valid_json ar"
    using valid_json_get[OF g(1)] valid_json_get[OF g(2)] by simp
  show ?thesis using assms(1) g v
    by (auto simp: enhance_telemetry_capture_def bindE_def json_of_sid_def split: option.splits)
qed

lemma enhancer_active:
  assumes "stdin c = Some v" and "capture_event v"
    and "environ w ''EVOLUTION_SESSION_ID'' = Some sid" and "sid \<noteq> []" and "generation_parses w"
    and "\<not> faulty c (Makedirs (telemetry_dir c))" and "\<not> is_file w (telemetry_dir c)"
  shows "\<exists>r. map_of r ''capture_source'' = Some (JStr ''hook_preuse'')
          \<and> (valid_json v \<longrightarrow> valid_json (JObj r))
          \<and> telemetry_enhancer_main c w
              = print_json v
                  (case append_line c (log_path c sid) (JsonLine (JObj r)) (with_telemetry_dir c w) of
                     Inr w2 \<Rightarrow> w2
                   | Inl e \<Rightarrow> with_telemetry_dir c w)"
proof -
  from assms(2) obtain n where n: "tool_name_of v = Some n" and pre: "prefix ''mcp__indesign__'' n"
    by (auto simp: capture_event_def split: option.splits)
  from tool_name_ofD[OF n] obtain ti where
    t: "py_get v ''tool'' (JObj []) = Inr ti" and nm: "py_get ti ''name'' (JStr []) = Inr (JStr n)"
    by blast
  from assms(2) n t obtain a k where
    a: "py_get ti ''arguments'' (JObj []) = Inr a" "py_len a = Inr k"
    by (auto simp: capture_event_def bindE_def split: sum.splits)
  from analyze_tool_usage_total[OF a(2)] obtain u where
    u: "analyze_tool_usage (py_repr c) n a = Inr u" "valid_json (JObj u)" by blast
  from session_info_active[OF assms(3,4,5)] obtain si where
    si: "get_session_info w = Inr si" "si_session_id si = Some sid" by blast
  have ti: "is_object ti" using nm by (rule py_get_is_object)
  have vti: "valid_json v \<Longrightarrow> valid_json ti"
    using valid_json_get[OF t] by simp
  from enhance_record_exists[OF si(1) ti, of c] obtain r where
    r: "enhance_telemetry_capture c w ti = Inr r"
      "map_of r ''session_id'' = Some (JStr sid)"
      "map_of r ''capture_source'' = Some (JStr ''hook_preuse'')"
      "valid_json ti \<longrightarrow> valid_json (JObj r)"
    using si(2) by (auto simp: json_of_sid_def)
  define r' where "r' = AList.update ''usage_analysis'' (JObj u) r"
  have r': "map_of r' ''session_id'' = Some (JStr sid)"
      "map_of r' ''capture_source'' = Some (JStr ''hook_preuse'')"
    using r(2,3) by (simp_all add: r'_def update_conv')
  have vr': "valid_json v \<longrightarrow> valid_json (JObj r')"
    unfolding r'_def using vti r(4) u(2) valid_json_update by blast
  define w2 where "w2 = (case append_line c (log_path c sid) (JsonLine (JObj r')) (with_telemetry_dir c w) of
                  Inr w2 \<Rightarrow> w2
                | Inl e \<Rightarrow> with_telemetry_dir c w)"
  have wr: "write_telemetry_record c r' w = Ok () w2"
    unfolding w2_def by (rule write_telemetry_record_active[OF r'(1) assms(4,6,7)])
  have env: "env_truthy w ''EVOLUTION_SESSION_ID''"
    using assms(3,4) by (simp add: env_truthy_def)
  have "telemetry_enhancer_try c w = Ok () (print_json v w2)"
    using assms(1) t nm pre env r(1) a(1) u(1) wr
    by (simp add: telemetry_enhancer_try_def raise_or_def as_str_def bindE_def r'_def)
  then have "telemetry_enhancer_main c w = print_json v w2"
    by (simp add: telemetry_enhancer_main_def)
  then show ?thesis using r'(2) vr' unfolding w2_def by blast
qed

lemma analyze_tool_result_valid:
  "analyze_tool_result repr tn r = Inr a \<Longrightarrow> valid_json a"
  by (auto simp: analyze_tool_result_def bindE_def Let_def split: sum.splits if_splits)

lemma complete_record_valid:
  assumes "complete_telemetry_record c w ti r et = Inr rcd"
    and "valid_json ti" and "valid_json et"
  shows "valid_json (JObj rcd)"
proof -
  from assms(1) obtain si where si: "get_session_info w = Inr si"
    by (auto simp: complete_telemetry_record_def bindE_def split: sum.splits)
  from assms(1) si obtain nm where nm: "py_get ti ''name'' (JStr ''unknown'') = Inr nm"
    by (auto simp: complete_telemetry_record_def bindE_def split: sum.splits)
  from assms(1) si nm obtain ar where ar: "py_get ti ''arguments'' (JObj []) = Inr ar"
    by (auto simp: complete_telemetry_record_def bindE_def split: sum.splits)
  from assms(1) si nm ar obtain err where err: "py_get r ''error'' JNull = Inr err"
    by (auto simp: complete_telemetry_record_def bindE_def split: sum.splits)
  from assms(1) si nm ar err obtain tn where tn: "py_get ti ''name'' (JStr []) = Inr tn"
    by (auto simp: complete_telemetry_record_def bindE_def Let_def split: sum.splits)
  from assms(1) si nm ar err tn obtain a where a: "analyze_tool_result (py_repr c) tn r = Inr a"
    by (auto simp: complete_telemetry_record_def bindE_def Let_def split: sum.splits)
  define base where "base =
             [(''timestamp'', JInt (now_ms c)),
              (''tool'', nm),
              (''parameters'', ar),
              (''result'', JStr (if \<not> truthy err then ''success'' else ''error'')),
              (''execution_time'', et),
              (''session_id'', json_of_sid (si_session_id si)),
              (''agent_id'', JStr (si_agent_id si)),
              (''generation'', JInt (si_generation si)),
              (''capture_source'', JStr ''hook_postuse'')]"
  define msg where "msg = (if truthy err
              then AList.update ''error_message'' (JStr (py_str (py_repr c) err)) base
              else base)"
  have rcd: "rcd = AList.update ''result_analysis'' a msg"
    using assms(1) si nm ar err tn a
    by (auto simp: complete_telemetry_record_def bindE_def Let_def msg_def base_def)
  have "valid_json nm" "valid_json ar"
    using valid_json_get[OF nm assms(2)] valid_json_get[OF ar assms(2)] by simp_all
  then have "valid_json (JObj base)"
    using assms(3) by (simp add: base_def json_of_sid_def split: option.splits)
  then have "valid_json (JObj msg)"
    unfolding msg_def using valid_json_update[of base "JStr (py_str (py_repr c) err)"] by simp
  then show ?thesis
    unfolding rcd using analyze_tool_result_valid[OF a] valid_json_update by blast
qed

lemma collector_active_valid:
  assumes "stdin c = Some v" and "completion_event v"
    and "environ w ''EVOLUTION_SESSION_ID'' = Some sid" and "sid \<noteq> []" and "generation_parses w"
    and "\<not> faulty c (Makedirs (telemetry_dir c))" and "\<not> is_file w (telemetry_dir c)"
  shows "\<exists>rcd. map_of rcd ''capture_source'' = Some (JStr ''hook_postuse'')
          \<and> (valid_json v \<longrightarrow> valid_json (JObj rcd))
          \<and> telemetry_collector_main c w
              = print_json v
                  (update_session_statistics c sid
                     (case append_line c (log_path c sid) (JsonLine (JObj rcd))
                             (with_telemetry_dir c w) of
                        Inr w2 \<Rightarrow> w2
                      | Inl e \<Rightarrow> with_telemetry_dir c w))"
proof -
  from assms(2) obtain n where n: "tool_name_of v = Some n" and pre: "prefix ''mcp__indesign__'' n"
    by (auto simp: completion_event_def split: option.splits)
  from tool_name_ofD[OF n] obtain ti where
    t: "py_get v ''tool'' (JObj []) = Inr ti" and nm: "py_get ti ''name'' (JStr []) = Inr (JStr n)"
    by blast
  from assms(2) n obtain r tm where
    r: "py_get v ''result'' (JObj []) = Inr r" "is_object r"
    and tm: "py_get v ''timing'' (JObj []) = Inr tm" "is_object tm"
    by (auto simp: completion_event_def split: sum.splits)
  obtain et where et: "py_get tm ''total_ms'' (JInt 0) = Inr et"
    using py_get_total[OF tm(2)] by blast
  from session_info_active[OF assms(3,4,5)] obtain si where
    si: "get_session_info w = Inr si" "si_session_id si = Some sid" by blast
  have ti: "is_object ti" using nm by (rule py_get_is_object)
  from complete_record_exists[OF si(1) ti r(2), of c et] obtain rcd where
    rec: "complete_telemetry_record c w ti r et = Inr rcd"
      "map_of rcd ''session_id'' = Some (JStr sid)"
      "map_of rcd ''capture_source'' = Some (JStr ''hook_postuse'')"
    using si(2) by (auto simp: json_of_sid_def)
  have vti: "valid_json v \<Longrightarrow> valid_json ti"
    using valid_json_get[OF t] by simp
  have vtm: "valid_json v \<Longrightarrow> valid_json tm"
    using valid_json_get[OF tm(1)] by simp
  have vet: "valid_json v \<Longrightarrow> valid_json et"
    using valid_json_get[OF et] vtm by simp
  have vr: "valid_json v \<longrightarrow> valid_json (JObj rcd)"
    using complete_record_valid[OF rec(1)] vti vet by blast
  define w2 where "w2 = (case append_line c (log_path c sid) (JsonLine (JObj rcd)) (with_telemetry_dir c w) of
                  Inr w2 \<Rightarrow> w2
                | Inl e \<Rightarrow> with_telemetry_dir c w)"
  have wr: "write_telemetry_record c rcd w = Ok () w2"
    unfolding w2_def by (rule write_telemetry_record_active[OF rec(2) assms(4,6,7)])
  have "environ w2 = environ w"
    using write_telemetry_record_frame[of c rcd w] wr by simp
  then have si2: "get_session_info w2 = Inr si"
    using get_session_info_environ[of w2 w] si(1) by simp
  have env: "env_truthy w ''EVOLUTION_SESSION_ID''"
    using assms(3,4) by (simp add: env_truthy_def)
  have "telemetry_collector_try c w = Ok () (print_json v (update_session_statistics c sid w2))"
    using assms(1,4) t nm r(1) tm(1) pre env et rec(1) wr si2 si(2)
    by (simp add: telemetry_collector_try_def raise_or_def as_str_def)
  then have "telemetry_collector_main c w = print_json v (update_session_statistics c sid w2)"
    by (simp add: telemetry_collector_main_def)
  then show ?thesis using rec(3) vr unfolding w2_def by blast
qed

lemma append_step_environ:
  assumes "w2 = (case append_line c l x (with_telemetry_dir c w) of
                   Inr w' \<Rightarrow> w' | Inl e \<Rightarrow> with_telemetry_dir c w)"
  shows "environ w2 = environ w"
  unfolding assms
  by (auto simp: append_line_def with_telemetry_dir_def Let_def split: sum.split if_splits)

lemma stats_dirs: "dirs (update_session_statistics c sid w) = dirs w"
  by (auto simp: update_session_statistics_def Let_def bindE_def write_file_def
        split: sum.split json.split if_splits)

lemma print_json_lines: "lines_of (print_json v w) p = lines_of w p"
  by (simp add: lines_of_def print_json_def)

lemma written_by_source:
  "written_by call l \<Longrightarrow> line_source l = Some (JStr (source_tag (fst call)))"
  by (auto simp: written_by_def line_source_def split: fline.splits)

lemma capture_step:
  assumes "good_capture hm (ep, c)"
    and "environ w ''EVOLUTION_SESSION_ID'' = Some sid" and "sid \<noteq> []"
    and "generation_parses w"
    and "\<not> is_file w (hm @ ''/.claude/telemetry'')" and "\<not> is_dir w (session_log hm sid)"
  shows "\<exists>l. written_by (ep, c) l
           \<and> lines_of (run_entry ep c w) (session_log hm sid)
               = lines_of w (session_log hm sid) @ [l]
           \<and> environ (run_entry ep c w) = environ w
           \<and> \<not> is_file (run_entry ep c w) (hm @ ''/.claude/telemetry'')
           \<and> \<not> is_dir (run_entry ep c w) (session_log hm sid)"
proof -
  from assms(1) obtain v where v: "stdin c = Some v"
    and ev: "(ep = PreCapture \<and> capture_event v) \<or> (ep = PostCapture \<and> completion_event v)"
    and hm: "home c = hm" and nf: "\<And>op. \<not> faulty c op"
    by (auto simp: good_capture_def split: option.splits)
  have td: "telemetry_dir c = hm @ ''/.claude/telemetry''"
    using hm by (simp add: telemetry_dir_def)
  have lp: "log_path c sid = session_log hm sid"
    using hm by (simp add: log_path_def session_log_def telemetry_dir_def)
  have nfile: "\<not> is_file w (telemetry_dir c)" using assms(5) td by simp
  have ndir: "\<not> is_dir w (log_path c sid)" using assms(6) lp by simp
  have ne: "log_path c sid \<noteq> telemetry_dir c" "telemetry_dir c \<noteq> log_path c sid"
    using session_paths_distinct(2)[of c sid c] by auto
  from ev show ?thesis
  proof
    assume e: "ep = PreCapture \<and> capture_event v"
    from enhancer_active[OF v _ assms(2,3,4) nf nfile] e obtain r where
      r: "map_of r ''capture_source'' = Some (JStr ''hook_preuse'')"
         "valid_json v \<longrightarrow> valid_json (JObj r)"
      and m: "telemetry_enhancer_main c w
              = print_json v
                  (case append_line c (log_path c sid) (JsonLine (JObj r)) (with_telemetry_dir c w) of
                     Inr w2 \<Rightarrow> w2
                   | Inl e \<Rightarrow> with_telemetry_dir c w)"
      by blast
    define w2 where "w2 = (case append_line c (log_path c sid) (JsonLine (JObj r))
                                  (with_telemetry_dir c w) of
                             Inr w2 \<Rightarrow> w2
                           | Inl e \<Rightarrow> with_telemetry_dir c w)"
    have run: "run_entry ep c w = print_json v w2"
      using e m by (simp add: run_entry_def w2_def)
    have a: "written_by (ep, c) (JsonLine (JObj r))"
      using e r v by (simp add: written_by_def is_object_def dict_field_def source_tag_def)
    have b: "lines_of w2 (log_path c sid) = lines_of w (log_path c sid) @ [JsonLine (JObj r)]"
      using append_step_log(1)[OF w2_def nf ndir ne(1)] .
    have c: "environ w2 = environ w"
      using append_step_environ[OF w2_def] .
    have d: "map_of (files w2) (telemetry_dir c) = map_of (files w) (telemetry_dir c)"
      using append_step_other(1)[OF w2_def ne(2)] .
    have f: "\<not> is_dir w2 (log_path c sid)"
      using append_step_other(2)[OF w2_def, of "log_path c sid"] ndir ne(1) by simp
    have "lines_of (run_entry ep c w) (session_log hm sid)
               = lines_of w (session_log hm sid) @ [JsonLine (JObj r)]"
      unfolding run print_json_lines using b lp by simp
    moreover have "environ (run_entry ep c w) = environ w"
      unfolding run using c by (simp add: print_json_rest)
    moreover have "\<not> is_file (run_entry ep c w) (hm @ ''/.claude/telemetry'')"
      unfolding run using d nfile td by (simp add: is_file_def print_json_rest)
    moreover have "\<not> is_dir (run_entry ep c w) (session_log hm sid)"
      unfolding run using f lp by (simp add: is_dir_def print_json_rest)
    ultimately show ?thesis using a by blast
  next
    assume e: "ep = PostCapture \<and> completion_event v"
    from collector_active_valid[OF v _ assms(2,3,4) nf nfile] e obtain r where
      r: "map_of r ''capture_source'' = Some (JStr ''hook_postuse'')"
         "valid_json v \<longrightarrow> valid_json (JObj r)"
      and m: "telemetry_collector_main c w
              = print_json v
                  (update_session_statistics c sid
                     (case append_line c (log_path c sid) (JsonLine (JObj r))
                             (with_telemetry_dir c w) of
                        Inr w2 \<Rightarrow> w2
                      | Inl e \<Rightarrow> with_telemetry_dir c w))"
      by blast
    define w2 where "w2 = (case append_line c (log_path c sid) (JsonLine (JObj r))
                                  (with_telemetry_dir c w) of
                             Inr w2 \<Rightarrow> w2
                           | Inl e \<Rightarrow> with_telemetry_dir c w)"
    define w3 where "w3 = update_session_statistics c sid w2"
    have run: "run_entry ep c w = print_json v w3"
      using e m by (simp add: run_entry_def w2_def w3_def)
    have a: "written_by (ep, c) (JsonLine (JObj r))"
      using e r v by (simp add: written_by_def is_object_def dict_field_def source_tag_def)
    have b: "lines_of w2 (log_path c sid) = lines_of w (log_path c sid) @ [JsonLine (JObj r)]"
      using append_step_log(1)[OF w2_def nf ndir ne(1)] .
    have b3: "lines_of w3 (log_path c sid) = lines_of w2 (log_path c sid)"
      unfolding w3_def
      by (rule lines_of_cong, rule stats_other_files, rule session_paths_distinct(1))
    have c: "environ w3 = environ w"
      unfolding w3_def using append_step_environ[OF w2_def] update_session_statistics_frame[of c sid w2]
      by simp
    have d: "map_of (files w2) (telemetry_dir c) = map_of (files w) (telemetry_dir c)"
      using append_step_other(1)[OF w2_def ne(2)] .
    have d3: "map_of (files w3) (telemetry_dir c) = map_of (files w2) (telemetry_dir c)"
      unfolding w3_def using stats_other_files[of "telemetry_dir c" c sid w2]
        session_paths_distinct(3)[of c sid c] by auto
    have f: "\<not> is_dir w2 (log_path c sid)"
      using append_step_other(2)[OF w2_def, of "log_path c sid"] ndir ne(1) by simp
    have f3: "\<not> is_dir w3 (log_path c sid)"
      using f unfolding w3_def by (simp add: is_dir_def stats_dirs)
    have "lines_of (run_entry ep c w) (session_log hm sid)
               = lines_of w (session_log hm sid) @ [JsonLine (JObj r)]"
      unfolding run print_json_lines using b b3 lp by simp
    moreover have "environ (run_entry ep c w) = environ w"
      unfolding run using c by (simp add: print_json_rest)
    moreover have "\<not> is_file (run_entry ep c w) (hm @ ''/.claude/telemetry'')"
      unfolding run using d d3 nfile td by (simp add: is_file_def print_json_rest)
    moreover have "\<not> is_dir (run_entry ep c w) (session_log hm sid)"
      unfolding run using f3 lp by (simp add: is_dir_def print_json_rest)
    ultimately show ?thesis using a by blast
  qed
qed

lemma capture_run:
  assumes "\<forall>call \<in> set calls. good_capture hm call"
    and "environ w ''EVOLUTION_SESSION_ID'' = Some sid" and "sid \<noteq> []"
    and "generation_parses w"
    and "\<not> is_file w (hm @ ''/.claude/telemetry'')" and "\<not> is_dir w (session_log hm sid)"
  shows "\<exists>ls. list_all2 written_by calls ls
           \<and> lines_of (run_all calls w) (session_log hm sid)
               = lines_of w (session_log hm sid) @ ls"
  using assms
proof (induction calls arbitrary: w)
  case Nil
  show ?case by simp
next
  case (Cons call calls)
  obtain ep c where call: "call = (ep, c)" by (cases call)
  have g: "good_capture hm (ep, c)" using Cons.prems(1) call by simp
  from capture_step[OF g Cons.prems(2,3,4,5,6)] obtain l where
    l: "written_by (ep, c) l"
       "lines_of (run_entry ep c w) (session_log hm sid) = lines_of w (session_log hm sid) @ [l]"
       "environ (run_entry ep c w) = environ w"
       "\<not> is_file (run_entry ep c w) (hm @ ''/.claude/telemetry'')"
       "\<not> is_dir (run_entry ep c w) (session_log hm sid)"
    by blast
  have e: "environ (run_entry ep c w) ''EVOLUTION_SESSION_ID'' = Some sid"
    using l(3) Cons.prems(2) by simp
  have gp: "generation_parses (run_entry ep c w)"
    using generation_parses_environ[of "run_entry ep c w" w] l(3) Cons.prems(4) by simp
  have rest: "\<forall>call \<in> set calls. good_capture hm call" using Cons.prems(1) by simp
  from Cons.IH[OF rest e Cons.prems(3) gp l(4,5)] obtain ls where
    ls: "list_all2 written_by calls ls"
        "lines_of (run_all calls (run_entry ep c w)) (session_log hm sid)
           = lines_of (run_entry ep c w) (session_log hm sid) @ ls"
    by blast
  have "list_all2 written_by (call # calls) (l # ls)"
    using l(1) ls(1) call by simp
  moreover have "lines_of (run_all (call # calls) w) (session_log hm sid)
                   = lines_of w (session_log hm sid) @ (l # ls)"
    using ls(2) l(2) call by simp
  ultimately show ?case by blast
qed

lemma good_capture_count:
  "\<forall>call \<in> set calls. good_capture hm call
     \<Longrightarrow> length calls = length (filter (\<lambda>call. fst call = PreCapture) calls)
                        + length (filter (\<lambda>call. fst call = PostCapture) calls)"
proof (induction calls)
  case Nil
  show ?case by simp
next
  case (Cons call calls)
  have "fst call = PreCapture \<or> fst call = PostCapture"
    using Cons.prems by (auto simp: good_capture_def split: option.splits)
  then show ?case using Cons by auto
qed

text \<open>
  Claim C5, as amended. Take a session (\<^verbatim>\<open>EVOLUTION_SESSION_ID\<close> holds a non-empty id and
  the generation variable parses) whose telemetry directory can be created and whose log is
  not a directory, and a sequence, in any order, of \<open>n\<close> pre-capture and \<open>n\<close>
  post-capture invocations on events of the observed toolset, in none of which an operation
  of the file system fails. The invocations append \<open>2 n\<close> lines to the log of the
  session, one each and in their order, so that a log that was absent or empty has exactly
  \<open>2 n\<close> lines. Each of these lines is a JSON object; it is JSON text when the event
  holds no non-finite number; its \<^verbatim>\<open>capture_source\<close> is \<^verbatim>\<open>hook_preuse\<close> when the
  pre-capture entry point wrote it and \<^verbatim>\<open>hook_postuse\<close> when the post-capture entry point
  wrote it.
\<close>

theorem capture_log_lines:
  assumes "\<forall>call \<in> set calls. good_capture hm call"
    and "length (filter (\<lambda>call. fst call = PreCapture) calls) = n"
    and "length (filter (\<lambda>call. fst call = PostCapture) calls) = n"
    and "environ w ''EVOLUTION_SESSION_ID'' = Some sid" and "sid \<noteq> []"
    and "generation_parses w"
    and "\<not> is_file w (hm @ ''/.claude/telemetry'')" and "\<not> is_dir w (session_log hm sid)"
  shows "\<exists>ls. lines_of (run_all calls w) (session_log hm sid)
                = lines_of w (session_log hm sid) @ ls
           \<and> length ls = 2 * n
           \<and> list_all2 written_by calls ls"
proof -
  from capture_run[OF assms(1,4,5,6,7,8)] obtain ls where
    ls: "list_all2 written_by calls ls"
        "lines_of (run_all calls w) (session_log hm sid) = lines_of w (session_log hm sid) @ ls"
    by blast
  have "length ls = length calls" using ls(1) by (simp add: list_all2_lengthD)
  then have "length ls = 2 * n"
    using good_capture_count[OF assms(1)] assms(2,3) by simp
  then show ?thesis using ls by blast
qed

theorem capture_log_lines_witness:
  "lines_of session_world (session_log ''/home/u'' ''s1'') = []
   \<and> length (lines_of (run_all one_call session_world) (session_log ''/home/u'' ''s1'')) = 2
   \<and> map line_source (lines_of (run_all one_call session_world) (session_log ''/home/u'' ''s1''))
       = [Some (JStr ''hook_preuse''), Some (JStr ''hook_postuse'')]"
proof -
  let ?a = "(PreCapture, quiet_ctx (Some tool_envelope) 1700000000123)"
  let ?b = "(PostCapture, quiet_ctx (Some tool_envelope) 1700000000135)"
  have ev: "capture_event tool_envelope" "completion_event tool_envelope"
    by code_simp+
  have g: "\<forall>call \<in> set one_call. good_capture ''/home/u'' call"
    using ev by (simp add: one_call_def good_capture_def quiet_ctx_def)
  have n: "length (filter (\<lambda>call. fst call = PreCapture) one_call) = 1"
          "length (filter (\<lambda>call. fst call = PostCapture) one_call) = 1"
    by (simp_all add: one_call_def)
  have e: "environ session_world ''EVOLUTION_SESSION_ID'' = Some ''s1''" "''s1'' \<noteq> []"
    by (simp_all add: session_world_def empty_world_def)
  have p: "generation_parses session_world"
    by (simp add: generation_parses_def get_session_info_def session_world_def empty_world_def
          bindE_def py_isdigit_def py_int_def ascii_digit_def)
  have f: "\<not> is_file session_world (''/home/u'' @ ''/.claude/telemetry'')"
          "\<not> is_dir session_world (session_log ''/home/u'' ''s1'')"
    by (simp_all add: session_world_def empty_world_def is_file_def is_dir_def)
  have z: "lines_of session_world (session_log ''/home/u'' ''s1'') = []"
    by (simp add: session_world_def empty_world_def lines_of_def)
  from capture_log_lines[OF g n e p f] obtain ls where
    ls: "lines_of (run_all one_call session_world) (session_log ''/home/u'' ''s1'')
           = lines_of session_world (session_log ''/home/u'' ''s1'') @ ls"
        "length ls = 2 * 1" "list_all2 written_by one_call ls"
    by blast
  from ls(3) obtain x y where xy: "ls = [x, y]" "written_by ?a x" "written_by ?b y"
    by (auto simp: one_call_def list_all2_Cons1)
  have s: "line_source x = Some (JStr ''hook_preuse'')" "line_source y = Some (JStr ''hook_postuse'')"
    using written_by_source[OF xy(2)] written_by_source[OF xy(3)] by (simp_all add: source_tag_def)
  show ?thesis using z ls(1) xy(1) s by simp
qed

text \<open>
  Claim C5 as stated fails in the values of \<^verbatim>\<open>capture_source\<close>: the record of the
  pre-capture entry point carries \<^verbatim>\<open>hook_preuse\<close>, not \<^verbatim>\<open>pre\<close>, and the record of the
  post-capture entry point carries \<^verbatim>\<open>hook_postuse\<close>, not \<^verbatim>\<open>post\<close>.
\<close>

theorem capture_source_counterexample:
  "map line_source
     (lines_of (run_entry PreCapture (quiet_ctx (Some tool_envelope) 1700000000123) session_world)
        (session_log ''/home/u'' ''s1''))
     = [Some (JStr ''hook_preuse'')]
   \<and> JStr ''hook_preuse'' \<noteq> JStr ''pre''
   \<and> map line_source
       (lines_of (run_entry PostCapture (quiet_ctx (Some tool_envelope) 1700000000135) session_world)
          (session_log ''/home/u'' ''s1''))
       = [Some (JStr ''hook_postuse'')]
   \<and> JStr ''hook_postuse'' \<noteq> JStr ''post''"
  by code_simp

end
